theory Spec2Isabelle
  imports Main "HOL-Library.AList"
begin

section \<open>Python string primitives used by the file manager\<close>

text \<open>
  Python strings are modelled as \<open>string\<close> (lists of characters); \<open>len\<close> is
  \<open>length\<close>, a slice \<open>s[:n]\<close> with a non-negative literal bound is \<open>take n s\<close>.
\<close>

text \<open>\<open>sub in s\<close>: \<open>sub\<close> occurs in \<open>s\<close> as a contiguous block.\<close>

fun str_contains :: "string \<Rightarrow> string \<Rightarrow> bool" where
  "str_contains sub [] = (sub = [])"
| "str_contains sub (c # s) = (take (length sub) (c # s) = sub \<or> str_contains sub s)"

text \<open>
  \<open>s.replace(old, new)\<close>: every non-overlapping occurrence of \<open>old\<close>, scanning from
  the left. With an empty \<open>old\<close> Python inserts \<open>new\<close> before every character and at
  the end.
\<close>

function str_replace :: "string \<Rightarrow> string \<Rightarrow> string \<Rightarrow> string" where
  "str_replace old new s =
     (if old = [] then concat (map (\<lambda>c. new @ [c]) s) @ new
      else if s = [] then []
      else if take (length old) s = old then new @ str_replace old new (drop (length old) s)
      else hd s # str_replace old new (tl s))"
  by pat_completeness auto
termination
  by (relation "measure (\<lambda>(old, new, s). length s)") auto

declare str_replace.simps [simp del]

text \<open>\<open>s[:k]\<close> for a Python integer \<open>k\<close>: a negative bound counts from the end.\<close>

definition py_slice_to :: "string \<Rightarrow> int \<Rightarrow> string" where
  "py_slice_to s k = (if 0 \<le> k then take (nat k) s else take (length s - nat (- k)) s)"

text \<open>\<open>str(n)\<close> for a non-negative integer: its decimal digits.\<close>

definition digit_char :: "nat \<Rightarrow> char" where
  "digit_char d = char_of (48 + d)"

function str_nat :: "nat \<Rightarrow> string" where
  "str_nat n = (if n < 10 then [digit_char n] else str_nat (n div 10) @ [digit_char (n mod 10)])"
  by pat_completeness auto
termination
  by (relation "measure id") auto

declare str_nat.simps [simp del]

text \<open>\<open>s.lower()\<close> on ASCII letters, and \<open>s.endswith(suffix)\<close>.\<close>

definition ascii_lower :: "char \<Rightarrow> char" where
  "ascii_lower c =
     (let n = (of_char c :: nat) in if 65 \<le> n \<and> n \<le> 90 then char_of (n + 32) else c)"

definition str_lower :: "string \<Rightarrow> string" where
  "str_lower s = map ascii_lower s"

definition str_endswith :: "string \<Rightarrow> string \<Rightarrow> bool" where
  "str_endswith s suf = (length suf \<le> length s \<and> drop (length s - length suf) s = suf)"

section \<open>Name sanitizers\<close>

text \<open>
  \<open>_sanitize_filename\<close>: the loop over \<open>invalid_chars\<close> removes each of
  \<open><>:"/\|?*\<close>, spaces become underscores, the \<open>while '__' in result\<close> loop
  collapses double underscores, and the result is cut to 100 characters.
\<close>

definition filename_invalid_chars :: string where
  "filename_invalid_chars =
     [CHR ''<'', CHR ''>'', CHR '':'', CHR 0x22, CHR ''/'', CHR 0x5C, CHR ''|'', CHR ''?'', CHR ''*'']"

text \<open>
  The two-character pattern \<open>'__'\<close> replaced by \<open>'_'\<close>, as equations by pattern
  matching; \<open>str_replace_dunder\<close> below shows it is \<open>str_replace\<close> at that pattern.
\<close>

fun replace_dunder :: "string \<Rightarrow> string" where
  "replace_dunder (a # b # s) =
     (if a = CHR ''_'' \<and> b = CHR ''_'' then CHR ''_'' # replace_dunder s
      else a # replace_dunder (b # s))"
| "replace_dunder s = s"

lemma str_replace_dunder: "str_replace ''__'' ''_'' s = replace_dunder s"
  by (induction s rule: replace_dunder.induct) (subst str_replace.simps, simp)+

lemma replace_dunder_le: "length (replace_dunder s) \<le> length s"
  by (induction s rule: replace_dunder.induct) auto

lemma replace_dunder_less:
  "str_contains ''__'' s \<Longrightarrow> length (replace_dunder s) < length s"
  using replace_dunder_le
  by (induction s rule: replace_dunder.induct) (auto simp: le_imp_less_Suc)

function collapse_underscores :: "string \<Rightarrow> string" where
  "collapse_underscores result =
     (if str_contains ''__'' result
      then collapse_underscores (str_replace ''__'' ''_'' result)
      else result)"
  by pat_completeness auto
termination
  by (relation "measure length") (auto simp: str_replace_dunder replace_dunder_less)

declare collapse_underscores.simps [simp del]

definition sanitize_filename :: "string \<Rightarrow> string" where
  "sanitize_filename name =
     (let result = fold (\<lambda>char r. str_replace [char] [] r) filename_invalid_chars name;
          result = str_replace '' '' ''_'' result;
          result = collapse_underscores result
      in take 100 result)"

text \<open>
  What a sanitized file name looks like: none of the removed characters, no space, no
  double underscore, at most 100 characters.
\<close>

definition filename_clean :: "string \<Rightarrow> bool" where
  "filename_clean s =
     (list_all (\<lambda>x. x \<notin> set filename_invalid_chars \<and> x \<noteq> CHR '' '') s
      \<and> \<not> str_contains ''__'' s \<and> length s \<le> 100)"

text \<open>
  \<open>_sanitize_sheet_name\<close>: each of \<open>\/*?:[]\<close> is replaced by an underscore and
  the result is cut to 31 characters.
\<close>

definition sheet_invalid_chars :: string where
  "sheet_invalid_chars =
     [CHR 0x5C, CHR ''/'', CHR ''*'', CHR ''?'', CHR '':'', CHR ''['', CHR '']'']"

definition sanitize_sheet_name :: "string \<Rightarrow> string" where
  "sanitize_sheet_name name =
     (let result = fold (\<lambda>char r. str_replace [char] ''_'' r) sheet_invalid_chars name
      in take 31 result)"

section \<open>Unique sheet names\<close>

text \<open>
  \<open>_make_unique_sheet_name\<close>. The \<open>while True\<close> loop has no bound in the source, so it
  is a partial function into \<open>option\<close>: \<open>None\<close> is the loop that never returns.
  \<open>existing_names\<close> is the list of titles of the workbook's sheets.
\<close>

definition suffixed_name :: "string \<Rightarrow> nat \<Rightarrow> string" where
  "suffixed_name name counter =
     (let suffix = ''_'' @ str_nat counter;
          max_base_len = 31 - int (length suffix)
      in py_slice_to name max_base_len @ suffix)"

partial_function (option) unique_name_loop :: "string list \<Rightarrow> string \<Rightarrow> nat \<Rightarrow> string option" where
  "unique_name_loop existing_names name counter =
     (let new_name = suffixed_name name counter
      in if new_name \<notin> set existing_names then Some new_name
         else unique_name_loop existing_names name (counter + 1))"

section \<open>Worksheets and workbooks\<close>

text \<open>
  The spreadsheet library's objects, as far as the file manager reads and writes them.
  A cell is an ordinary cell (a value and, when \<open>has_style\<close> holds, its style) or a
  \<open>MergedCell\<close> placeholder, whose value is always \<open>None\<close>. A worksheet stores its
  cells by (row, column), both counted from 1. Cell values are \<open>None\<close>, strings,
  integers, booleans, floats and dates; a float is named by its \<open>repr\<close> and a date by
  its ISO text, since the code never computes with either. Widths and heights are whole
  numbers here, \<open>None\<close> when unset.
\<close>

datatype cell_value =
    VNone
  | VStr string
  | VInt int
  | VBool bool
  | VFloat string
  | VDate string

record cell_style =
  font :: string
  fill :: string
  border :: string
  alignment :: string
  number_format :: string

datatype cell = Cell cell_value "cell_style option" | MergedCell


fun style_of :: "cell \<Rightarrow> cell_style option" where
  "style_of (Cell v st) = st"
| "style_of MergedCell = None"

datatype cell_range = CellRange nat nat nat nat

fun in_range :: "cell_range \<Rightarrow> nat \<times> nat \<Rightarrow> bool" where
  "in_range (CellRange min_row min_col max_row' max_col) (r, c) =
     (min_row \<le> r \<and> r \<le> max_row' \<and> min_col \<le> c \<and> c \<le> max_col)"

fun anchor :: "cell_range \<Rightarrow> nat \<times> nat" where
  "anchor (CellRange min_row min_col max_row' max_col) = (min_row, min_col)"

fun range_max_row :: "cell_range \<Rightarrow> nat" where
  "range_max_row (CellRange min_row min_col max_row' max_col) = max_row'"

fun range_max_col :: "cell_range \<Rightarrow> nat" where
  "range_max_col (CellRange min_row min_col max_row' max_col) = max_col"

record worksheet =
  title :: string
  cells :: "nat \<times> nat \<Rightarrow> cell option"
  max_row :: nat
  max_column :: nat
  merged_cells :: "cell_range list"
  column_dimensions :: "(string \<times> int option) list"
  row_dimensions :: "(nat \<times> int option) list"

record workbook =
  worksheets :: "worksheet list"

definition new_worksheet :: "string \<Rightarrow> worksheet" where
  "new_worksheet t =
     \<lparr>title = t, cells = (\<lambda>rc. None), max_row = 0, max_column = 0, merged_cells = [],
      column_dimensions = [], row_dimensions = []\<rparr>"

text \<open>\<open>Workbook()\<close>: a new workbook holds one sheet, titled \<open>Sheet\<close>.\<close>

definition new_workbook :: workbook where
  "new_workbook = \<lparr>worksheets = [new_worksheet ''Sheet'']\<rparr>"

text \<open>\<open>ws.cell(row, column)\<close>: the stored cell, or a new empty one.\<close>

definition ws_cell :: "worksheet \<Rightarrow> nat \<times> nat \<Rightarrow> cell" where
  "ws_cell ws rc = (case cells ws rc of None \<Rightarrow> Cell VNone None | Some c \<Rightarrow> c)"

text \<open>
  \<open>ws.iter_rows()\<close>: the rows 1 to \<open>max_row\<close>, each with the columns 1 to
  \<open>max_column\<close>; nothing for a sheet without cells.
\<close>

definition iter_rows :: "worksheet \<Rightarrow> cell list list" where
  "iter_rows ws =
     map (\<lambda>r. map (\<lambda>c. ws_cell ws (r, c)) [1..<Suc (max_column ws)]) [1..<Suc (max_row ws)]"

text \<open>
  The value setter of a cell, \<open>target_cell.value = v\<close>: the library keeps at most the
  first 32767 characters of a text and takes every other value as it is.
\<close>

definition bind_value :: "cell_value \<Rightarrow> cell_value" where
  "bind_value v = (case v of VStr s \<Rightarrow> VStr (take 32767 s) | _ \<Rightarrow> v)"

text \<open>
  Writing a cell of the target: \<open>target_cell.value = cell.value\<close>, and the five style
  attributes when the source cell has a style. The cell enters the sheet's extent. The
  target of \<open>_copy_sheet_data\<close> is a sheet that \<open>create_sheet\<close> has just made, so the
  position written holds no cell before; on any other target the written cell replaces
  what was there.
\<close>

definition write_cell :: "worksheet \<Rightarrow> nat \<times> nat \<Rightarrow> cell_value \<Rightarrow> cell_style option \<Rightarrow> worksheet" where
  "write_cell target rc v st =
     (let target_cell = ws_cell target rc;
          st' = (case st of None \<Rightarrow> style_of target_cell | Some s \<Rightarrow> Some s)
      in target\<lparr>cells := (cells target)(rc := Some (Cell (bind_value v) st')),
                max_row := max (max_row target) (fst rc),
                max_column := max (max_column target) (snd rc)\<rparr>)"

text \<open>
  \<open>ws.merge_cells(range)\<close>: the range joins the merged ranges, and every cell of the
  range but its top-left anchor is replaced by a \<open>MergedCell\<close>.
\<close>

definition merge_cells :: "worksheet \<Rightarrow> cell_range \<Rightarrow> worksheet" where
  "merge_cells ws rng =
     ws\<lparr>merged_cells := (if rng \<in> set (merged_cells ws) then merged_cells ws
                           else merged_cells ws @ [rng]),
        cells := (\<lambda>rc. if in_range rng rc \<and> rc \<noteq> anchor rng then Some MergedCell
                       else cells ws rc),
        max_row := max (max_row ws) (range_max_row rng),
        max_column := max (max_column ws) (range_max_col rng)\<rparr>"

text \<open>\<open>_copy_sheet_data\<close>: cell data first, then merged ranges, then the dimensions.\<close>

definition copy_cell :: "nat \<Rightarrow> nat \<times> cell \<Rightarrow> worksheet \<Rightarrow> worksheet" where
  "copy_cell row_idx ic target =
     (case snd ic of
        MergedCell \<Rightarrow> target
      | Cell v st \<Rightarrow> write_cell target (row_idx, fst ic) v st)"

definition copy_row :: "nat \<times> cell list \<Rightarrow> worksheet \<Rightarrow> worksheet" where
  "copy_row ir target = fold (copy_cell (fst ir)) (List.enumerate 1 (snd ir)) target"

definition copy_sheet_data :: "worksheet \<Rightarrow> worksheet \<Rightarrow> worksheet" where
  "copy_sheet_data source_sheet target_sheet =
     (let t1 = fold copy_row (List.enumerate 1 (iter_rows source_sheet)) target_sheet;
          t2 = fold (\<lambda>merged_range t. merge_cells t merged_range) (merged_cells source_sheet) t1;
          t3 = fold (\<lambda>cd t. t\<lparr>column_dimensions := AList.update (fst cd) (snd cd) (column_dimensions t)\<rparr>)
                 (column_dimensions source_sheet) t2;
          t4 = fold (\<lambda>rd t. t\<lparr>row_dimensions := AList.update (fst rd) (snd rd) (row_dimensions t)\<rparr>)
                 (row_dimensions source_sheet) t3
      in t4)"

text \<open>
  \<open>_make_unique_sheet_name\<close>: the titles of the workbook's sheets are collected, the
  name is returned when it is not among them, and the suffix search starts at 1
  otherwise.
\<close>

definition unique_sheet_name :: "string list \<Rightarrow> string \<Rightarrow> string option" where
  "unique_sheet_name existing_names name =
     (if name \<notin> set existing_names then Some name
      else unique_name_loop existing_names name 1)"

definition make_unique_sheet_name :: "workbook \<Rightarrow> string \<Rightarrow> string option" where
  "make_unique_sheet_name wb name =
     (let existing_names = map title (worksheets wb)
      in unique_sheet_name existing_names name)"

text \<open>
  \<open>wb.create_sheet(title=t)\<close>: a new empty sheet, added last. The library does not
  take the title as it is passed. An empty title is replaced by the default
  \<open>Sheet\<close> (\<open>title or self._default_title\<close>), and \<open>avoid_duplicate_name\<close> then
  compares the title with the names of the sheets of the workbook without regard to
  letter case: when one of them is equal to it, the names are joined with commas, the
  pattern \<open>(title)(\d*),?\<close> is searched in the joined text, again without regard to
  case, and the title gets the highest number found, plus one, appended. A title of more
  than 31 characters is only warned about. A title holding one of the characters that
  \<open>_sanitize_sheet_name\<close> replaces is refused; the names the code passes are
  sanitized and hold none of them. \<open>title_matches\<close> is \<open>findall\<close> for that
  pattern: the digit groups of the matches, from left to right, without overlap.
\<close>

definition is_digit :: "char \<Rightarrow> bool" where
  "is_digit c = (c \<in> set ''0123456789'')"

definition nat_of_digits :: "string \<Rightarrow> nat" where
  "nat_of_digits ds = foldl (\<lambda>a c. 10 * a + (of_char c - 48)) 0 ds"

fun join_names :: "string list \<Rightarrow> string" where
  "join_names [] = []"
| "join_names [n] = n"
| "join_names (n # m # ns) = n @ '','' @ join_names (m # ns)"

function title_matches :: "string \<Rightarrow> string \<Rightarrow> string list" where
  "title_matches v s =
     (if v = [] \<or> s = [] then []
      else if str_lower (take (length v) s) = str_lower v
      then takeWhile is_digit (drop (length v) s)
             # title_matches v
                 (let rest = dropWhile is_digit (drop (length v) s)
                  in if take 1 rest = '','' then drop 1 rest else rest)
      else title_matches v (tl s))"
  by pat_completeness auto
termination
proof (relation "measure (\<lambda>(v, s). length s)")
  show "wf (measure (\<lambda>(v, s). length s))" by simp
next
  fix v s :: string
  assume a: "\<not> (v = [] \<or> s = [])"
  let ?rest = "dropWhile is_digit (drop (length v) s)"
  have "length ?rest \<le> length (drop (length v) s)" by (rule length_dropWhile_le)
  moreover have "length (drop (length v) s) < length s" using a by simp
  ultimately have "length ?rest < length s" "length (drop 1 ?rest) < length s" by simp_all
  then show "((v, let rest = ?rest in if take 1 rest = '','' then drop 1 rest else rest), v, s)
               \<in> measure (\<lambda>(v, s). length s)"
    by (simp add: Let_def)
next
  fix v s :: string
  assume "\<not> (v = [] \<or> s = [])"
  then show "((v, tl s), v, s) \<in> measure (\<lambda>(v, s). length s)" by (cases s) simp_all
qed

declare title_matches.simps [simp del]

definition avoid_duplicate_name :: "string list \<Rightarrow> string \<Rightarrow> string" where
  "avoid_duplicate_name names v =
     (if list_ex (\<lambda>n. str_lower n = str_lower v) names
      then (let matches = title_matches v (join_names names)
            in if matches \<noteq> []
               then (let counts = map nat_of_digits (filter (\<lambda>idx. idx \<noteq> []) matches);
                         highest = fold max counts 0
                     in v @ str_nat (highest + 1))
               else v)
      else v)"

definition assigned_title :: "string list \<Rightarrow> string \<Rightarrow> string" where
  "assigned_title names t = avoid_duplicate_name names (if t = [] then ''Sheet'' else t)"

definition create_sheet :: "workbook \<Rightarrow> string \<Rightarrow> workbook" where
  "create_sheet wb t =
     wb\<lparr>worksheets := worksheets wb
           @ [new_worksheet (assigned_title (map title (worksheets wb)) t)]\<rparr>"

section \<open>Paths\<close>

text \<open>\<open>os.path.join\<close>, \<open>os.path.basename\<close> and \<open>os.path.splitext\<close> on POSIX paths.\<close>

definition os_path_join :: "string \<Rightarrow> string \<Rightarrow> string" where
  "os_path_join a b =
     (if take 1 b = ''/'' then b
      else if a = [] \<or> last a = CHR ''/'' then a @ b
      else a @ ''/'' @ b)"

definition os_path_basename :: "string \<Rightarrow> string" where
  "os_path_basename p = rev (takeWhile (\<lambda>c. c \<noteq> CHR ''/'') (rev p))"

text \<open>\<open>s.rfind(c)\<close>: the index of the last occurrence, or -1.\<close>

definition str_rfind :: "string \<Rightarrow> char \<Rightarrow> int" where
  "str_rfind s c =
     (if c \<in> set s then int (length s) - 1 - int (length (takeWhile (\<lambda>x. x \<noteq> c) (rev s)))
      else - 1)"

definition os_path_splitext :: "string \<Rightarrow> string \<times> string" where
  "os_path_splitext p =
     (let sepIndex = str_rfind p (CHR ''/'');
          dotIndex = str_rfind p (CHR ''.'')
      in if dotIndex > sepIndex
            \<and> list_ex (\<lambda>c. c \<noteq> CHR ''.'')
                 (take (nat (dotIndex - (sepIndex + 1))) (drop (nat (sepIndex + 1)) p))
         then (take (nat dotIndex) p, drop (nat dotIndex) p)
         else (p, []))"

section \<open>The file system, the log and the open workbooks\<close>

text \<open>
  What the operating system and the spreadsheet library answer, per path: whether the
  path is a regular file, what \<open>os.stat\<close> gives, what opening the file and reading
  its first four bytes gives, and what \<open>load_workbook\<close> gives. A path exists when it
  has a node. Times are seconds since the epoch. The exceptions the code raises or lets
  through are the values of \<open>error\<close>: the \<open>ValueError\<close> of an empty source list, the
  \<open>FileNotFoundError\<close> of a missing path, the error of an operating system call, and the
  error of \<open>load_workbook\<close> on a file that does not parse.
\<close>

datatype os_error = PermissionError | IsADirectoryError | IOError

datatype load_error = InvalidFileException | BadZipFile

datatype error =
    ValueError string
  | FileNotFoundError string
  | OSError os_error
  | LoadError load_error
  | OverflowError

record stat_result =
  st_size :: nat
  st_ctime :: int
  st_mtime :: int

record file_node =
  node_isfile :: bool
  node_stat :: "os_error + stat_result"
  node_header :: "os_error + string"
  node_doc :: "load_error + workbook"

datatype log_level = LogDebug | LogInfo | LogWarning | LogError

type_synonym log_entry = "log_level \<times> string \<times> string"

datatype handle = OutputWorkbook | SourceWorkbook string

text \<open>
  The world threaded through every operation: the files, the outcome of writing a new
  file at a path (an error, or the metadata of the file written), the outcome of
  \<open>os.remove\<close> at a path, the clock, the log written so far, and the workbooks that
  were opened and not yet closed. \<open>w_localtime\<close> takes seconds since the epoch to the
  wall-clock time of the local time zone, as \<open>datetime.now()\<close> and
  \<open>datetime.fromtimestamp\<close> give it, in seconds. \<open>w_reread\<close> is what a float, a date
  or an integer of 17 digits and more reads back as once the spreadsheet library has
  written it to a file with 16 significant digits.
\<close>

record world =
  w_files :: "string \<Rightarrow> file_node option"
  w_write :: "string \<Rightarrow> os_error + stat_result"
  w_remove :: "string \<Rightarrow> os_error option"
  w_now :: int
  w_localtime :: "int \<Rightarrow> int"
  w_reread :: "cell_value \<Rightarrow> cell_value"
  w_log :: "log_entry list"
  w_open :: "handle list"

definition logger :: "log_level \<Rightarrow> string \<Rightarrow> string \<Rightarrow> world \<Rightarrow> world" where
  "logger lvl msg field w = w\<lparr>w_log := w_log w @ [(lvl, msg, field)]\<rparr>"

definition os_path_exists :: "world \<Rightarrow> string \<Rightarrow> bool" where
  "os_path_exists w p = (w_files w p \<noteq> None)"

definition os_path_isfile :: "world \<Rightarrow> string \<Rightarrow> bool" where
  "os_path_isfile w p = (case w_files w p of None \<Rightarrow> False | Some n \<Rightarrow> node_isfile n)"

definition os_stat :: "world \<Rightarrow> string \<Rightarrow> error + stat_result" where
  "os_stat w p =
     (case w_files w p of
        None \<Rightarrow> Inl (FileNotFoundError p)
      | Some n \<Rightarrow> (case node_stat n of Inl e \<Rightarrow> Inl (OSError e) | Inr st \<Rightarrow> Inr st))"

text \<open>\<open>open(p, 'rb')\<close> followed by \<open>f.read(4)\<close>.\<close>

definition read_header :: "world \<Rightarrow> string \<Rightarrow> error + string" where
  "read_header w p =
     (case w_files w p of
        None \<Rightarrow> Inl (FileNotFoundError p)
      | Some n \<Rightarrow> (case node_header n of Inl e \<Rightarrow> Inl (OSError e) | Inr h \<Rightarrow> Inr (take 4 h)))"

definition os_remove :: "world \<Rightarrow> string \<Rightarrow> error + world" where
  "os_remove w p =
     (case w_files w p of
        None \<Rightarrow> Inl (FileNotFoundError p)
      | Some n \<Rightarrow>
          (case w_remove w p of
             Some e \<Rightarrow> Inl (OSError e)
           | None \<Rightarrow> Inr (w\<lparr>w_files := (w_files w)(p := None)\<rparr>)))"

text \<open>\<open>load_workbook(p)\<close>: the parsed workbook, which is then open, or the error.\<close>

definition load_workbook :: "world \<Rightarrow> string \<Rightarrow> error + world \<times> workbook" where
  "load_workbook w p =
     (case w_files w p of
        None \<Rightarrow> Inl (FileNotFoundError p)
      | Some n \<Rightarrow>
          (case node_doc n of
             Inl e \<Rightarrow> Inl (LoadError e)
           | Inr wb \<Rightarrow> Inr (w\<lparr>w_open := w_open w @ [SourceWorkbook p]\<rparr>, wb)))"

definition close_workbook :: "handle \<Rightarrow> world \<Rightarrow> world" where
  "close_workbook h w = w\<lparr>w_open := removeAll h (w_open w)\<rparr>"

text \<open>
  What a cell value is once written to a file and read again. The writer leaves a cell
  with an empty text empty, so it reads back as \<open>None\<close>. A number is written with
  \<open>%.16g\<close>, that is as a double with 16 significant digits: an integer up to
  \<open>2^53\<close> in magnitude is written exactly; between \<open>2^53\<close> and \<open>10^16\<close> the doubles
  are the even integers, an odd integer goes to the neighbour that is a multiple of 4
  (round half to even), and the 16 digits written are that integer; from \<open>10^16\<close> on,
  also when the rounding gets there, the text written has an exponent and reads back as
  a float. Floats and dates go through the same 16 digits; what they read back as is
  \<open>w_reread\<close>.
\<close>

definition nearest_double :: "int \<Rightarrow> int" where
  "nearest_double n = (if even n then n else if (n - 1) mod 4 = 0 then n - 1 else n + 1)"

definition stored_value :: "(cell_value \<Rightarrow> cell_value) \<Rightarrow> cell_value \<Rightarrow> cell_value" where
  "stored_value reread v =
     (case v of
        VNone \<Rightarrow> VNone
      | VStr s \<Rightarrow> if s = [] then VNone else VStr s
      | VBool b \<Rightarrow> VBool b
      | VInt n \<Rightarrow>
          if \<bar>n\<bar> \<le> 2 ^ 53 then VInt n
          else if \<bar>n\<bar> < 10 ^ 16 \<and> \<bar>nearest_double n\<bar> < 10 ^ 16 then VInt (nearest_double n)
          else reread v
      | VFloat r \<Rightarrow> reread v
      | VDate d \<Rightarrow> reread v)"

definition stored_cell :: "(cell_value \<Rightarrow> cell_value) \<Rightarrow> cell \<Rightarrow> cell" where
  "stored_cell reread c =
     (case c of Cell v st \<Rightarrow> Cell (stored_value reread v) st | MergedCell \<Rightarrow> MergedCell)"

definition stored_sheet :: "(cell_value \<Rightarrow> cell_value) \<Rightarrow> worksheet \<Rightarrow> worksheet" where
  "stored_sheet reread ws = ws\<lparr>cells := (\<lambda>rc. map_option (stored_cell reread) (cells ws rc))\<rparr>"

definition stored_workbook :: "(cell_value \<Rightarrow> cell_value) \<Rightarrow> workbook \<Rightarrow> workbook" where
  "stored_workbook reread wb = wb\<lparr>worksheets := map (stored_sheet reread) (worksheets wb)\<rparr>"

text \<open>
  \<open>wb.save(p)\<close>: the file at \<open>p\<close> is created or replaced by the archive of the
  workbook, which starts with the ZIP signature and loads back as the workbook with
  its cell values as the writer stored them.
\<close>

definition zip_signature :: string where
  "zip_signature = [CHR ''P'', CHR ''K'', CHR 0x03, CHR 0x04]"

definition wb_save :: "workbook \<Rightarrow> string \<Rightarrow> world \<Rightarrow> error + world" where
  "wb_save wb p w =
     (case w_write w p of
        Inl e \<Rightarrow> Inl (OSError e)
      | Inr st \<Rightarrow>
          Inr (w\<lparr>w_files := (w_files w)(p \<mapsto>
                 \<lparr>node_isfile = True, node_stat = Inr st,
                  node_header = Inr zip_signature,
                  node_doc = Inr (stored_workbook (w_reread w) wb)\<rparr>)\<rparr>))"

section \<open>File validation\<close>

text \<open>
  \<open>validate_excel_file\<close>. \<open>os.stat\<close> stands outside the \<open>try\<close>, so its error is
  the one outcome that is not a boolean.
\<close>

definition has_excel_extension :: "string \<Rightarrow> bool" where
  "has_excel_extension filepath =
     (str_endswith (str_lower filepath) ''.xlsx'' \<or> str_endswith (str_lower filepath) ''.xls'')"

definition validate_excel_file :: "world \<Rightarrow> string \<Rightarrow> world \<times> (error + bool)" where
  "validate_excel_file w filepath =
     (if \<not> os_path_exists w filepath then (w, Inr False)
      else case os_stat w filepath of
        Inl e \<Rightarrow> (w, Inl e)
      | Inr st \<Rightarrow>
          if st_size st < 1000
          then (logger LogWarning ''File too small to be valid Excel'' filepath w, Inr False)
          else if \<not> has_excel_extension filepath
          then (logger LogWarning ''File does not have Excel extension'' filepath w, Inr False)
          else (case read_header w filepath of
                  Inl e \<Rightarrow> (logger LogError ''Error reading file'' filepath w, Inr False)
                | Inr header \<Rightarrow>
                    if take 2 header \<noteq> ''PK''
                    then (logger LogWarning ''File does not have valid Excel header'' filepath w,
                          Inr False)
                    else (w, Inr True)))"

text \<open>
  The validator as the specification words it: the path exists, the size is at least
  1000 bytes, the extension is one of the two, and the first two bytes are \<open>PK\<close>.
\<close>

definition spec_valid_excel :: "world \<Rightarrow> string \<Rightarrow> bool" where
  "spec_valid_excel w filepath =
     (case w_files w filepath of
        None \<Rightarrow> False
      | Some n \<Rightarrow>
          (case node_stat n of Inl e \<Rightarrow> False | Inr st \<Rightarrow> 1000 \<le> st_size st)
          \<and> (str_endswith (str_lower filepath) ''.xlsx'' \<or> str_endswith (str_lower filepath) ''.xls'')
          \<and> (case node_header n of Inl e \<Rightarrow> False | Inr h \<Rightarrow> take 2 h = ''PK''))"

section \<open>Listing, cleanup and renaming\<close>

record file_info =
  info_path :: string
  info_filename :: string
  info_size :: nat
  info_created_at :: int
  info_modified_at :: int

definition get_file_info :: "world \<Rightarrow> string \<Rightarrow> error + file_info" where
  "get_file_info w filepath =
     (if \<not> os_path_exists w filepath then Inl (FileNotFoundError (''File not found: '' @ filepath))
      else case os_stat w filepath of
        Inl e \<Rightarrow> Inl e
      | Inr st \<Rightarrow>
          Inr \<lparr>info_path = filepath, info_filename = os_path_basename filepath,
               info_size = st_size st, info_created_at = st_ctime st,
               info_modified_at = st_mtime st\<rparr>)"

text \<open>
  \<open>list_downloads\<close>; \<open>entries\<close> is what \<open>os.listdir(download_dir)\<close> returned. The
  \<open>try\<close> around \<open>get_file_info\<close> turns its error into a warning. The result is
  sorted by modification time, latest first, entries of equal time in their order, as
  \<open>sorted(..., reverse=True)\<close> does on the source's timestamps.
\<close>

fun list_loop :: "string \<Rightarrow> string list \<Rightarrow> world \<times> file_info list \<Rightarrow> world \<times> file_info list" where
  "list_loop download_dir [] (w, files) = (w, files)"
| "list_loop download_dir (filename # rest) (w, files) =
     (let filepath = os_path_join download_dir filename
      in if os_path_isfile w filepath
         then (case get_file_info w filepath of
                 Inr info \<Rightarrow> list_loop download_dir rest (w, files @ [info])
               | Inl e \<Rightarrow>
                   list_loop download_dir rest
                     (logger LogWarning ''Error getting file info'' filename w, files))
         else list_loop download_dir rest (w, files))"

definition list_downloads :: "string \<Rightarrow> string list \<Rightarrow> world \<Rightarrow> world \<times> (error + file_info list)" where
  "list_downloads download_dir entries w =
     (case list_loop download_dir entries (w, []) of
        (w', files) \<Rightarrow> (w', Inr (rev (sort_key info_modified_at (rev files)))))"

text \<open>
  \<open>cleanup_old_files\<close>: no \<open>try\<close> in its loop, so an error of \<open>os.stat\<close> or
  \<open>os.remove\<close> ends the call. The cutoff and the modification times are compared as
  local wall-clock times. \<open>timedelta(days=...)\<close> takes at most 999999999 days in
  magnitude, and the cutoff has to lie between the years 1 and 9999; outside of that
  the call ends with an \<open>OverflowError\<close> before it looks at a file.
\<close>

definition datetime_in_range :: "int \<Rightarrow> bool" where
  "datetime_in_range t = (- 62135596800 \<le> t \<and> t \<le> 253402300799)"

fun cleanup_loop :: "string \<Rightarrow> int \<Rightarrow> string list \<Rightarrow> world \<times> nat \<Rightarrow> world \<times> (error + nat)" where
  "cleanup_loop download_dir cutoff [] (w, deleted) = (w, Inr deleted)"
| "cleanup_loop download_dir cutoff (filename # rest) (w, deleted) =
     (let filepath = os_path_join download_dir filename
      in if os_path_isfile w filepath
         then (case os_stat w filepath of
                 Inl e \<Rightarrow> (w, Inl e)
               | Inr st \<Rightarrow>
                   if w_localtime w (st_mtime st) < cutoff
                   then (case os_remove w filepath of
                           Inl e \<Rightarrow> (w, Inl e)
                         | Inr w' \<Rightarrow>
                             cleanup_loop download_dir cutoff rest
                               (logger LogInfo ''Deleted old file'' filename w', deleted + 1))
                   else cleanup_loop download_dir cutoff rest (w, deleted))
         else cleanup_loop download_dir cutoff rest (w, deleted))"

definition cleanup_old_files :: "string \<Rightarrow> string list \<Rightarrow> int \<Rightarrow> world \<Rightarrow> world \<times> (error + nat)" where
  "cleanup_old_files download_dir entries max_age_days w =
     (if \<bar>max_age_days\<bar> > 999999999 then (w, Inl OverflowError)
      else let cutoff = w_localtime w (w_now w) - max_age_days * 86400
           in if \<not> datetime_in_range cutoff then (w, Inl OverflowError)
              else cleanup_loop download_dir cutoff entries (w, 0))"

text \<open>\<open>rename_download\<close>; \<open>shutil.move\<close> takes the node to the new path.\<close>

definition shutil_move :: "world \<Rightarrow> string \<Rightarrow> string \<Rightarrow> error + world" where
  "shutil_move w src dst =
     (case w_files w src of
        None \<Rightarrow> Inl (FileNotFoundError src)
      | Some n \<Rightarrow>
          (case w_write w dst of
             Inl e \<Rightarrow> Inl (OSError e)
           | Inr st \<Rightarrow> Inr (w\<lparr>w_files := ((w_files w)(src := None))(dst \<mapsto> n)\<rparr>)))"

definition rename_download :: "string \<Rightarrow> string \<Rightarrow> string \<Rightarrow> world \<Rightarrow> world \<times> (error + string)" where
  "rename_download download_dir original_path new_filename w =
     (if \<not> os_path_exists w original_path
      then (w, Inl (FileNotFoundError (''File not found: '' @ original_path)))
      else
        let new_path = os_path_join download_dir new_filename;
            r1 = (if os_path_exists w new_path
                  then (let w1 = logger LogWarning ''File already exists, will overwrite'' new_path w
                        in case os_remove w1 new_path of Inl e \<Rightarrow> (w1, Inl e) | Inr w2 \<Rightarrow> (w2, Inr ()))
                  else (w, Inr ()))
        in case r1 of
             (w1, Inl e) \<Rightarrow> (w1, Inl e)
           | (w1, Inr u) \<Rightarrow>
               (case shutil_move w1 original_path new_path of
                  Inl e \<Rightarrow> (w1, Inl e)
                | Inr w2 \<Rightarrow> (logger LogInfo ''File renamed'' new_path w2, Inr new_path)))"

section \<open>Consolidation\<close>

text \<open>
  \<open>consolidate_excel_files\<close>. The candidate name of a copied sheet: with a custom name
  for the file's index (\<open>sheet_names and file_idx < len(sheet_names)\<close>) it is that name,
  followed by the source sheet's title when the source has more than one sheet; without
  one it is the file's base name without extension, cut to 15 characters, followed by
  the source sheet's title.
\<close>

definition default_sheet_name :: "string \<Rightarrow> worksheet \<Rightarrow> string" where
  "default_sheet_name file_path source_sheet =
     (let base_name = fst (os_path_splitext (os_path_basename file_path));
          short_base = (if length base_name > 15 then take 15 base_name else base_name)
      in short_base @ ''_'' @ title source_sheet)"

definition candidate_sheet_name ::
  "string list option \<Rightarrow> nat \<Rightarrow> string \<Rightarrow> workbook \<Rightarrow> worksheet \<Rightarrow> string" where
  "candidate_sheet_name sheet_names file_idx file_path source_wb source_sheet =
     (case sheet_names of
        None \<Rightarrow> default_sheet_name file_path source_sheet
      | Some names \<Rightarrow>
          if names \<noteq> [] \<and> file_idx < length names
          then (if length (worksheets source_wb) > 1
                then (names ! file_idx) @ ''_'' @ title source_sheet
                else names ! file_idx)
          else default_sheet_name file_path source_sheet)"

text \<open>
  The body of the inner loop: the name is sanitized and made unique, the sheet is
  created in the output workbook and filled from the source sheet, and
  \<open>sheet_index\<close> counts it. \<open>None\<close> is a name search that does not return.
\<close>

definition copy_sheet ::
  "string list option \<Rightarrow> nat \<Rightarrow> string \<Rightarrow> workbook \<Rightarrow> worksheet
     \<Rightarrow> world \<times> workbook \<times> nat \<Rightarrow> (world \<times> workbook \<times> nat) option" where
  "copy_sheet sheet_names file_idx file_path source_wb source_sheet st =
     (case st of (w, output_wb, sheet_index) \<Rightarrow>
        (case make_unique_sheet_name output_wb
                (sanitize_sheet_name
                   (candidate_sheet_name sheet_names file_idx file_path source_wb source_sheet)) of
           None \<Rightarrow> None
         | Some new_sheet_name \<Rightarrow>
             let wb1 = create_sheet output_wb new_sheet_name;
                 i = length (worksheets wb1) - 1;
                 wb2 = wb1\<lparr>worksheets :=
                         (worksheets wb1)[i := copy_sheet_data source_sheet (worksheets wb1 ! i)]\<rparr>
             in Some (logger LogDebug ''Copied sheet'' new_sheet_name w, wb2, sheet_index + 1)))"

fun copy_sheets ::
  "string list option \<Rightarrow> nat \<Rightarrow> string \<Rightarrow> workbook \<Rightarrow> worksheet list
     \<Rightarrow> world \<times> workbook \<times> nat \<Rightarrow> (world \<times> workbook \<times> nat) option" where
  "copy_sheets sheet_names file_idx file_path source_wb [] st = Some st"
| "copy_sheets sheet_names file_idx file_path source_wb (source_sheet # rest) st =
     (case copy_sheet sheet_names file_idx file_path source_wb source_sheet st of
        None \<Rightarrow> None
      | Some st' \<Rightarrow> copy_sheets sheet_names file_idx file_path source_wb rest st')"

text \<open>
  The outer loop over \<open>enumerate(file_paths)\<close>. An error of \<open>load_workbook\<close> is logged
  and raised again; nothing closes a workbook on that path.
\<close>

fun process_files ::
  "string list option \<Rightarrow> (nat \<times> string) list \<Rightarrow> world \<times> workbook \<times> nat
     \<Rightarrow> (world \<times> (error + workbook \<times> nat)) option" where
  "process_files sheet_names [] (w, output_wb, sheet_index) = Some (w, Inr (output_wb, sheet_index))"
| "process_files sheet_names ((file_idx, file_path) # rest) (w, output_wb, sheet_index) =
     (case load_workbook w file_path of
        Inl e \<Rightarrow> Some (logger LogError ''Error processing file'' file_path w, Inl e)
      | Inr (w1, source_wb) \<Rightarrow>
          (case copy_sheets sheet_names file_idx file_path source_wb (worksheets source_wb)
                  (w1, output_wb, sheet_index) of
             None \<Rightarrow> None
           | Some (w2, output_wb', sheet_index') \<Rightarrow>
               process_files sheet_names rest
                 (close_workbook (SourceWorkbook file_path) w2, output_wb', sheet_index')))"

text \<open>
  \<open>default_sheet\<close> is the sheet the new workbook starts with; sheets are only added
  after it, so it stays the first one.
\<close>

definition remove_default_sheet :: "workbook \<Rightarrow> nat \<Rightarrow> workbook" where
  "remove_default_sheet output_wb sheet_index =
     (case worksheets output_wb of
        [] \<Rightarrow> output_wb
      | default_sheet # copied \<Rightarrow>
          if sheet_index > 0 \<and> title default_sheet = ''Sheet''
          then output_wb\<lparr>worksheets := copied\<rparr>
          else output_wb)"

definition consolidate_excel_files ::
  "string \<Rightarrow> string list \<Rightarrow> string \<Rightarrow> string list option \<Rightarrow> world
     \<Rightarrow> (world \<times> (error + string)) option" where
  "consolidate_excel_files download_dir file_paths output_filename sheet_names w =
     (if file_paths = [] then Some (w, Inl (ValueError ''No files provided for consolidation''))
      else case find (\<lambda>path. \<not> os_path_exists w path) file_paths of
        Some path \<Rightarrow> Some (w, Inl (FileNotFoundError (''File not found: '' @ path)))
      | None \<Rightarrow>
          let w0 = logger LogInfo ''Consolidating Excel files'' output_filename w;
              w1 = w0\<lparr>w_open := w_open w0 @ [OutputWorkbook]\<rparr>
          in case process_files sheet_names (List.enumerate 0 file_paths) (w1, new_workbook, 0) of
               None \<Rightarrow> None
             | Some (w2, Inl e) \<Rightarrow> Some (w2, Inl e)
             | Some (w2, Inr (output_wb, sheet_index)) \<Rightarrow>
                 let output_wb' = remove_default_sheet output_wb sheet_index;
                     output_path = os_path_join download_dir output_filename
                 in case wb_save output_wb' output_path w2 of
                      Inl e \<Rightarrow> Some (w2, Inl e)
                    | Inr w3 \<Rightarrow>
                        Some (logger LogInfo ''Consolidation complete'' output_path
                                (close_workbook OutputWorkbook w3),
                              Inr output_path))"

text \<open>The workbook stored at a path, when the path holds a parseable document.\<close>

definition saved_workbook :: "world \<Rightarrow> string \<Rightarrow> workbook option" where
  "saved_workbook w p =
     (case w_files w p of
        None \<Rightarrow> None
      | Some n \<Rightarrow> (case node_doc n of Inl e \<Rightarrow> None | Inr wb \<Rightarrow> Some wb))"

section \<open>What a consolidation job is to produce\<close>

text \<open>
  The copied sheets, in the order of the two loops: each source sheet paired with its
  sanitized candidate name. \<open>docs\<close> are the workbooks the source paths load as.
\<close>

definition file_jobs ::
  "string list option \<Rightarrow> nat \<times> string \<times> workbook \<Rightarrow> (string \<times> worksheet) list" where
  "file_jobs sheet_names job =
     (case job of (file_idx, file_path, source_wb) \<Rightarrow>
        map (\<lambda>source_sheet.
               (sanitize_sheet_name
                  (candidate_sheet_name sheet_names file_idx file_path source_wb source_sheet),
                source_sheet))
          (worksheets source_wb))"

definition all_jobs ::
  "string list option \<Rightarrow> nat \<Rightarrow> string list \<Rightarrow> workbook list \<Rightarrow> (string \<times> worksheet) list" where
  "all_jobs sheet_names start file_paths docs =
     concat (map (file_jobs sheet_names)
               (zip [start..<start + length file_paths] (zip file_paths docs)))"

text \<open>
  \<open>placed existing jobs new\<close>: the sheets \<open>new\<close> are the copies of the jobs' source
  sheets, in order, each under the title that \<open>create_sheet\<close> gives to the name that
  \<open>_make_unique_sheet_name\<close> returns for its candidate, against the titles present when
  it is created.
\<close>

fun placed :: "string list \<Rightarrow> (string \<times> worksheet) list \<Rightarrow> worksheet list \<Rightarrow> bool" where
  "placed existing [] new = (new = [])"
| "placed existing (job # jobs) [] = False"
| "placed existing (job # jobs) (t # ts) =
     (map_option (assigned_title existing) (unique_sheet_name existing (fst job)) = Some (title t)
      \<and> t = copy_sheet_data (snd job) (new_worksheet (title t))
      \<and> placed (existing @ [title t]) jobs ts)"



section \<open>Auxiliary notions for the properties\<close>

text \<open>
  \<open>quiet_log\<close>: the log grew by entries none of which is a warning. \<open>same_env\<close>:
  files, write and remove outcomes, clock, time zone and the reading of stored numbers
  are unchanged and the log grew quietly.
  \<open>written_node\<close> is the file that \<open>wb_save\<close> leaves, \<open>output_of\<close> the output workbook
  for a list of copied sheets, \<open>output_titles\<close> the sheet titles of the output a
  successful call stored.
\<close>

definition quiet_log :: "world \<Rightarrow> world \<Rightarrow> bool" where
  "quiet_log w w' = (\<exists>l. w_log w' = w_log w @ l \<and> list_all (\<lambda>e. fst e \<noteq> LogWarning) l)"

definition same_env :: "world \<Rightarrow> world \<Rightarrow> bool" where
  "same_env w w' =
     (w_files w' = w_files w \<and> w_write w' = w_write w \<and> w_remove w' = w_remove w
      \<and> w_now w' = w_now w \<and> w_localtime w' = w_localtime w \<and> w_reread w' = w_reread w
      \<and> quiet_log w w')"

definition written_node :: "stat_result \<Rightarrow> workbook \<Rightarrow> file_node" where
  "written_node st wb =
     \<lparr>node_isfile = True, node_stat = Inr st, node_header = Inr zip_signature, node_doc = Inr wb\<rparr>"

definition output_of :: "worksheet list \<Rightarrow> workbook" where
  "output_of new = \<lparr>worksheets = (if new = [] then [new_worksheet ''Sheet''] else new)\<rparr>"

definition output_titles :: "(world \<times> (error + string)) option \<Rightarrow> string list option" where
  "output_titles res =
     (case res of
        None \<Rightarrow> None
      | Some (w', Inl e) \<Rightarrow> None
      | Some (w', Inr p) \<Rightarrow> map_option (\<lambda>wb. map title (worksheets wb)) (saved_workbook w' p))"





section \<open>Concrete worlds\<close>

text \<open>
  Small file systems on which the operations are run below: an empty one in which every
  write succeeds, the local time is UTC and the float 0.30000000000000004 reads back
  from a file as 0.3; one with an unparseable source file; and a download directory with
  two old files of which one cannot be deleted.
\<close>

definition base_world :: world where
  "base_world =
     \<lparr>w_files = (\<lambda>p. None),
      w_write = (\<lambda>p. Inr \<lparr>st_size = 5000, st_ctime = 8640000, st_mtime = 8640000\<rparr>),
      w_remove = (\<lambda>p. None),
      w_now = 8640000,
      w_localtime = (\<lambda>t. t),
      w_reread = (\<lambda>v. if v = VFloat ''0.30000000000000004'' then VFloat ''0.3'' else v),
      w_log = [],
      w_open = []\<rparr>"

definition old_file :: file_node where
  "old_file =
     \<lparr>node_isfile = True,
      node_stat = Inr \<lparr>st_size = 2000, st_ctime = 0, st_mtime = 0\<rparr>,
      node_header = Inr ''garbage'',
      node_doc = Inl BadZipFile\<rparr>"

definition broken_world :: world where
  "broken_world = base_world\<lparr>w_files := (w_files base_world)(''/data/broken.xlsx'' \<mapsto> old_file)\<rparr>"

definition locked_world :: world where
  "locked_world =
     base_world\<lparr>w_files := (w_files base_world)
                    (''/app/downloads/old_locked.xlsx'' \<mapsto> old_file,
                     ''/app/downloads/old_free.xlsx'' \<mapsto> old_file),
                 w_remove := (w_remove base_world)
                    (''/app/downloads/old_locked.xlsx'' := Some PermissionError)\<rparr>"

definition chart_only_world :: world where
  "chart_only_world =
     base_world\<lparr>w_files := (w_files base_world)(''/data/charts.xlsx'' \<mapsto>
        \<lparr>node_isfile = True,
         node_stat = Inr \<lparr>st_size = 3000, st_ctime = 0, st_mtime = 0\<rparr>,
         node_header = Inr zip_signature,
         node_doc = Inr \<lparr>worksheets = []\<rparr>\<rparr>)\<rparr>"

text \<open>
  Two reports with one sheet each, and a file already at the output path.
\<close>

definition data_sheet :: worksheet where
  "data_sheet =
     \<lparr>title = ''Data'',
      cells = ((\<lambda>rc. None)((1, 1) \<mapsto> Cell (VStr ''Total'') None,
                            (1, 2) \<mapsto> MergedCell,
                            (2, 1) \<mapsto> Cell (VInt 42) None)),
      max_row = 2, max_column = 2,
      merged_cells = [CellRange 1 1 1 2],
      column_dimensions = [(''A'', Some 20)],
      row_dimensions = []\<rparr>"

definition report_node :: file_node where
  "report_node =
     \<lparr>node_isfile = True,
      node_stat = Inr \<lparr>st_size = 6000, st_ctime = 0, st_mtime = 0\<rparr>,
      node_header = Inr zip_signature,
      node_doc = Inr \<lparr>worksheets = [data_sheet]\<rparr>\<rparr>"

definition report_world :: world where
  "report_world =
     base_world\<lparr>w_files := (w_files base_world)
                    (''/data/report_a.xlsx'' \<mapsto> report_node,
                     ''/data/report_b.xlsx'' \<mapsto> report_node,
                     ''/app/downloads/out.xlsx'' \<mapsto> old_file)\<rparr>"



section \<open>Properties of the sanitizers\<close>

lemma str_replace_char:
  "str_replace [c] new s = concat (map (\<lambda>x. if x = c then new else [x]) s)"
proof (induction s)
  case Nil
  show ?case by (subst str_replace.simps) simp
next
  case (Cons a s)
  then show ?case by (subst str_replace.simps) simp
qed

lemma fold_remove_chars:
  "fold (\<lambda>char r. str_replace [char] [] r) cs s = filter (\<lambda>x. x \<notin> set cs) s"
proof (induction cs arbitrary: s)
  case Nil
  show ?case by simp
next
  case (Cons c cs)
  have "str_replace [c] [] s = filter (\<lambda>x. x \<noteq> c) s"
    by (induction s) (simp_all add: str_replace_char)
  with Cons show ?case by (simp add: conj_commute)
qed

lemma fold_replace_chars:
  "u \<notin> set cs \<Longrightarrow>
   fold (\<lambda>char r. str_replace [char] [u] r) cs s = map (\<lambda>x. if x \<in> set cs then u else x) s"
proof (induction cs arbitrary: s)
  case Nil
  show ?case by simp
next
  case (Cons c cs)
  have "str_replace [c] [u] s = map (\<lambda>x. if x = c then u else x) s"
    by (induction s) (simp_all add: str_replace_char)
  with Cons show ?case by (auto simp: comp_def)
qed

lemma set_replace_dunder: "set (replace_dunder s) \<subseteq> set s"
  by (induction s rule: replace_dunder.induct) auto

lemma collapse_no_dunder: "\<not> str_contains ''__'' (collapse_underscores s)"
  by (induction s rule: collapse_underscores.induct) (subst collapse_underscores.simps, simp)

lemma set_collapse: "set (collapse_underscores s) \<subseteq> set s"
proof (induction s rule: collapse_underscores.induct)
  case (1 result)
  show ?case
  proof (cases "str_contains ''__'' result")
    case True
    with 1 have "set (collapse_underscores (str_replace ''__'' ''_'' result)) \<subseteq> set (replace_dunder result)"
      by (simp add: str_replace_dunder)
    with True set_replace_dunder[of result] show ?thesis
      by (subst collapse_underscores.simps) auto
  next
    case False
    then show ?thesis by (subst collapse_underscores.simps) simp
  qed
qed

lemma collapse_id: "\<not> str_contains ''__'' s \<Longrightarrow> collapse_underscores s = s"
  by (subst collapse_underscores.simps) simp

lemma contains_dunder_take: "str_contains ''__'' (take n s) \<Longrightarrow> str_contains ''__'' s"
proof (induction s arbitrary: n)
  case Nil
  then show ?case by simp
next
  case (Cons a s)
  show ?case
  proof (cases n)
    case 0
    with Cons.prems show ?thesis by simp
  next
    case (Suc m)
    show ?thesis
    proof (cases "take 2 (a # take m s) = ''__''")
      case True
      then have "take 2 (a # s) = ''__''"
        by (cases m; cases s) (auto split: if_splits)
      then show ?thesis by simp
    next
      case False
      with Cons.prems Suc have "str_contains ''__'' (take m s)" by auto
      then show ?thesis using Cons.IH by simp
    qed
  qed
qed

lemma length_take_le: "length (take n xs) \<le> n"
  by simp

lemma sanitize_filename_clean: "filename_clean (sanitize_filename x)"
proof -
  let ?r1 = "filter (\<lambda>x. x \<notin> set filename_invalid_chars) x"
  let ?r2 = "map (\<lambda>x. if x = CHR '' '' then CHR ''_'' else x) ?r1"
  let ?r3 = "collapse_underscores ?r2"
  have r2: "str_replace '' '' ''_'' ?r1 = ?r2"
    by (induction x) (simp_all add: str_replace_char)
  have eq: "sanitize_filename x = take 100 ?r3"
    by (simp add: sanitize_filename_def fold_remove_chars r2)
  have us: "CHR ''_'' \<notin> set filename_invalid_chars"
    by (simp add: filename_invalid_chars_def)
  have r2ok: "\<forall>c \<in> set ?r2. c \<notin> set filename_invalid_chars \<and> c \<noteq> CHR '' ''"
  proof
    fix c assume "c \<in> set ?r2"
    then obtain y where y: "y \<notin> set filename_invalid_chars"
      and c: "c = (if y = CHR '' '' then CHR ''_'' else y)"
      by auto
    show "c \<notin> set filename_invalid_chars \<and> c \<noteq> CHR '' ''"
    proof (cases "y = CHR '' ''")
      case True
      with c us show ?thesis by simp
    next
      case False
      with c y show ?thesis by simp
    qed
  qed
  have A: "\<forall>c \<in> set (take 100 ?r3). c \<notin> set filename_invalid_chars \<and> c \<noteq> CHR '' ''"
  proof
    fix c assume "c \<in> set (take 100 ?r3)"
    then have "c \<in> set ?r3" by (rule in_set_takeD)
    then have "c \<in> set ?r2" using set_collapse[of ?r2] by (rule rev_subsetD)
    with r2ok
    show "c \<notin> set filename_invalid_chars \<and> c \<noteq> CHR '' ''" by blast
  qed
  have B: "\<not> str_contains ''__'' (take 100 ?r3)"
    using contains_dunder_take collapse_no_dunder by blast
  have C: "length (take 100 ?r3) \<le> 100"
    by (rule length_take_le)
  show ?thesis
    unfolding eq filename_clean_def list_all_iff
    by (intro conjI) (rule A, rule B, rule C)
qed

lemma sanitize_filename_fixed: "filename_clean s \<Longrightarrow> sanitize_filename s = s"
proof -
  assume c: "filename_clean s"
  then have c1: "\<forall>x \<in> set s. x \<notin> set filename_invalid_chars \<and> x \<noteq> CHR '' ''"
    and c2: "\<not> str_contains ''__'' s" and c3: "length s \<le> 100"
    unfolding filename_clean_def list_all_iff by blast+
  from c1 have a: "filter (\<lambda>x. x \<notin> set filename_invalid_chars) s = s"
    by (intro filter_True) blast
  from c1 have b: "map (\<lambda>x. if x = CHR '' '' then CHR ''_'' else x) s = s"
    by (intro map_idI) simp
  have r2: "str_replace '' '' ''_'' s = map (\<lambda>x. if x = CHR '' '' then CHR ''_'' else x) s"
    by (induction s) (simp_all add: str_replace_char)
  from c2 have d: "collapse_underscores s = s"
    by (rule collapse_id)
  from c3 have e: "take 100 s = s"
    by (rule take_all)
  show ?thesis
    unfolding sanitize_filename_def Let_def fold_remove_chars a r2 b d e ..
qed

lemma sanitize_sheet_name_eq:
  "sanitize_sheet_name x = take 31 (map (\<lambda>c. if c \<in> set sheet_invalid_chars then CHR ''_'' else c) x)"
proof -
  have "CHR ''_'' \<notin> set sheet_invalid_chars" by (simp add: sheet_invalid_chars_def)
  then show ?thesis by (simp add: sanitize_sheet_name_def fold_replace_chars)
qed

text \<open>
  Claim C9: both sanitizers are idempotent. A sanitized file name contains none of the
  stripped characters, no space and no double underscore and has at most 100
  characters, so a second pass changes nothing; the sheet-name sanitizer maps each
  character on its own and cuts to 31, and the underscore it writes is not one of the
  characters it replaces.
\<close>

theorem sanitizers_idempotent:
  "sanitize_filename (sanitize_filename x) = sanitize_filename x
   \<and> sanitize_sheet_name (sanitize_sheet_name y) = sanitize_sheet_name y"
proof
  show "sanitize_filename (sanitize_filename x) = sanitize_filename x"
    by (rule sanitize_filename_fixed) (rule sanitize_filename_clean)
  have "CHR ''_'' \<notin> set sheet_invalid_chars" by (simp add: sheet_invalid_chars_def)
  then show "sanitize_sheet_name (sanitize_sheet_name y) = sanitize_sheet_name y"
    by (simp add: sanitize_sheet_name_eq take_map comp_def)
qed

section \<open>The validator\<close>

lemma ext_xlsx: "has_excel_extension ''report.xlsx''"
  by (simp add: has_excel_extension_def str_endswith_def str_lower_def ascii_lower_def)

lemma ext_upper: "has_excel_extension ''REPORT.XLSX''"
  by code_simp

lemma ext_txt: "\<not> has_excel_extension ''report.txt''"
  by (simp add: has_excel_extension_def str_endswith_def str_lower_def ascii_lower_def)

lemma validate_iff:
  "(snd (validate_excel_file w filepath) = Inr True) = spec_valid_excel w filepath"
  by (auto simp: validate_excel_file_def spec_valid_excel_def os_path_exists_def os_stat_def
        read_header_def has_excel_extension_def
      split: option.splits sum.splits)

text \<open>
  Claim C7: \<open>validate_excel_file\<close> returns true exactly when the path exists, the size
  is at least 1000 bytes, the lower-cased path ends in \<open>.xlsx\<close> or \<open>.xls\<close> and the
  first two bytes are \<open>PK\<close>. A missing file gives false, and so does a file whose
  bytes cannot be read. The four examples: 500 bytes with the right extension and magic
  bytes is false; 2000 bytes named \<open>.txt\<close> is false; 2000 bytes starting with \<open>MZ\<close>
  is false; 2000 bytes named \<open>.xlsx\<close> starting with \<open>PK\<close> is true, and so is the
  same file named in capitals.
\<close>

theorem validate_excel_file_correct:
  "(snd (validate_excel_file w filepath) = Inr True) = spec_valid_excel w filepath
   \<and> snd (validate_excel_file (w\<lparr>w_files := (w_files w)(filepath := None)\<rparr>) filepath) = Inr False
   \<and> snd (validate_excel_file
            (w\<lparr>w_files := (w_files w)(filepath \<mapsto> n\<lparr>node_stat := Inr st, node_header := Inl e\<rparr>)\<rparr>)
            filepath) = Inr False
   \<and> snd (validate_excel_file
            (w\<lparr>w_files := (w_files w)(''report.xlsx'' \<mapsto>
                 n\<lparr>node_stat := Inr (st\<lparr>st_size := 500\<rparr>), node_header := Inr zip_signature\<rparr>)\<rparr>)
            ''report.xlsx'') = Inr False
   \<and> snd (validate_excel_file
            (w\<lparr>w_files := (w_files w)(''report.txt'' \<mapsto>
                 n\<lparr>node_stat := Inr (st\<lparr>st_size := 2000\<rparr>), node_header := Inr zip_signature\<rparr>)\<rparr>)
            ''report.txt'') = Inr False
   \<and> snd (validate_excel_file
            (w\<lparr>w_files := (w_files w)(''report.xlsx'' \<mapsto>
                 n\<lparr>node_stat := Inr (st\<lparr>st_size := 2000\<rparr>), node_header := Inr [CHR ''M'', CHR ''Z'', CHR 0x90, CHR 0x00]\<rparr>)\<rparr>)
            ''report.xlsx'') = Inr False
   \<and> snd (validate_excel_file
            (w\<lparr>w_files := (w_files w)(''report.xlsx'' \<mapsto>
                 n\<lparr>node_stat := Inr (st\<lparr>st_size := 2000\<rparr>), node_header := Inr zip_signature\<rparr>)\<rparr>)
            ''report.xlsx'') = Inr True
   \<and> snd (validate_excel_file
            (w\<lparr>w_files := (w_files w)(''REPORT.XLSX'' \<mapsto>
                 n\<lparr>node_stat := Inr (st\<lparr>st_size := 2000\<rparr>), node_header := Inr zip_signature\<rparr>)\<rparr>)
            ''REPORT.XLSX'') = Inr True"
proof (intro conjI)
  show "(snd (validate_excel_file w filepath) = Inr True) = spec_valid_excel w filepath"
    by (rule validate_iff)
  show "snd (validate_excel_file (w\<lparr>w_files := (w_files w)(filepath := None)\<rparr>) filepath) = Inr False"
    by (simp add: validate_excel_file_def os_path_exists_def)
  show "snd (validate_excel_file
            (w\<lparr>w_files := (w_files w)(filepath \<mapsto> n\<lparr>node_stat := Inr st, node_header := Inl e\<rparr>)\<rparr>)
            filepath) = Inr False"
    by (simp add: validate_excel_file_def os_path_exists_def os_stat_def read_header_def)
qed (simp_all add: validate_excel_file_def os_path_exists_def os_stat_def read_header_def
       ext_xlsx ext_txt ext_upper zip_signature_def)

section \<open>Termination of the name search\<close>

lemma digit_char_not_underscore: "d < 10 \<Longrightarrow> digit_char d \<noteq> CHR ''_''"
proof
  assume d: "d < 10" and "digit_char d = CHR ''_''"
  then have "(of_char (digit_char d) :: nat) = of_char CHR ''_''" by simp
  with d show False by (simp add: digit_char_def)
qed

lemma digit_char_inj: "a < 10 \<Longrightarrow> b < 10 \<Longrightarrow> digit_char a = digit_char b \<Longrightarrow> a = b"
proof -
  assume a: "a < 10" and b: "b < 10" and "digit_char a = digit_char b"
  then have "(of_char (digit_char a) :: nat) = of_char (digit_char b)" by simp
  with a b show "a = b" by (simp add: digit_char_def)
qed

lemma str_nat_nonempty: "str_nat n \<noteq> []"
  by (subst str_nat.simps) simp

lemma str_nat_no_underscore: "CHR ''_'' \<notin> set (str_nat n)"
proof (induction n rule: str_nat.induct)
  case (1 n)
  show ?case
  proof (cases "n < 10")
    case True
    then show ?thesis
      using digit_char_not_underscore[of n] by (subst str_nat.simps) auto
  next
    case False
    have "n mod 10 < 10" by simp
    then have "digit_char (n mod 10) \<noteq> CHR ''_''" by (rule digit_char_not_underscore)
    with False 1 show ?thesis by (subst str_nat.simps) auto
  qed
qed

lemma str_nat_inj: "str_nat n = str_nat m \<Longrightarrow> n = m"
proof (induction n arbitrary: m rule: str_nat.induct)
  case (1 n)
  show ?case
  proof (cases "n < 10")
    case n: True
    show ?thesis
    proof (cases "m < 10")
      case True
      with n 1(2) show ?thesis
        by (simp add: str_nat.simps[of n] str_nat.simps[of m] digit_char_inj)
    next
      case False
      with n 1(2) have "str_nat (m div 10) = []"
        by (simp add: str_nat.simps[of n] str_nat.simps[of m])
      with str_nat_nonempty show ?thesis by blast
    qed
  next
    case n: False
    show ?thesis
    proof (cases "m < 10")
      case True
      with n 1(2) have "str_nat (n div 10) = []"
        by (simp add: str_nat.simps[of n] str_nat.simps[of m])
      with str_nat_nonempty show ?thesis by blast
    next
      case False
      with n 1(2) have e: "str_nat (n div 10) = str_nat (m div 10)"
        and d: "digit_char (n mod 10) = digit_char (m mod 10)"
        by (simp_all add: str_nat.simps[of n] str_nat.simps[of m])
      from 1(1)[OF n e] have "n div 10 = m div 10" .
      moreover from d have "n mod 10 = m mod 10"
        by (intro digit_char_inj) simp_all
      ultimately show ?thesis by (metis div_mult_mod_eq)
    qed
  qed
qed

lemma split_at_last_underscore:
  assumes "a @ CHR ''_'' # d = b @ CHR ''_'' # e"
    and "CHR ''_'' \<notin> set d" and "CHR ''_'' \<notin> set e"
  shows "d = e"
proof -
  have "rev d @ CHR ''_'' # rev a = rev e @ CHR ''_'' # rev b"
    using assms(1) by (metis rev.simps(2) rev_append append.assoc append_Cons append_Nil)
  then have "takeWhile (\<lambda>c. c \<noteq> CHR ''_'') (rev d @ CHR ''_'' # rev a)
           = takeWhile (\<lambda>c. c \<noteq> CHR ''_'') (rev e @ CHR ''_'' # rev b)"
    by simp
  moreover have "takeWhile (\<lambda>c. c \<noteq> CHR ''_'') (rev d @ CHR ''_'' # rev a) = rev d"
    using assms(2) by (auto simp: takeWhile_tail takeWhile_eq_all_conv)
  moreover have "takeWhile (\<lambda>c. c \<noteq> CHR ''_'') (rev e @ CHR ''_'' # rev b) = rev e"
    using assms(3) by (auto simp: takeWhile_tail takeWhile_eq_all_conv)
  ultimately show ?thesis by simp
qed

lemma suffixed_name_inj: "suffixed_name name j = suffixed_name name k \<Longrightarrow> j = k"
proof -
  assume "suffixed_name name j = suffixed_name name k"
  then have "str_nat j = str_nat k"
    unfolding suffixed_name_def Let_def
    using split_at_last_underscore[OF _ str_nat_no_underscore str_nat_no_underscore]
    by simp
  then show ?thesis by (rule str_nat_inj)
qed

lemma unique_name_loop_returns:
  "\<exists>k. counter \<le> k \<and> unique_name_loop existing name counter = Some (suffixed_name name k)
       \<and> suffixed_name name k \<notin> set existing
       \<and> (\<forall>j. counter \<le> j \<and> j < k \<longrightarrow> suffixed_name name j \<in> set existing)"
proof (induction "card {x \<in> set existing. \<exists>j\<ge>counter. x = suffixed_name name j}"
        arbitrary: counter rule: less_induct)
  case less
  let ?S = "\<lambda>c. {x \<in> set existing. \<exists>j\<ge>c. x = suffixed_name name j}"
  show ?case
  proof (cases "suffixed_name name counter \<in> set existing")
    case False
    then have "unique_name_loop existing name counter = Some (suffixed_name name counter)"
      by (subst unique_name_loop.simps) simp
    with False show ?thesis by (intro exI[of _ counter]) auto
  next
    case True
    have fin: "finite (?S counter)" by simp
    have "suffixed_name name counter \<in> ?S counter" using True by auto
    moreover have "suffixed_name name counter \<notin> ?S (Suc counter)"
    proof
      assume "suffixed_name name counter \<in> ?S (Suc counter)"
      then obtain j where "Suc counter \<le> j" "suffixed_name name counter = suffixed_name name j"
        by auto
      then show False using suffixed_name_inj by fastforce
    qed
    moreover have "?S (Suc counter) \<subseteq> ?S counter"
    proof
      fix x assume "x \<in> ?S (Suc counter)"
      then obtain j where "x \<in> set existing" "Suc counter \<le> j" "x = suffixed_name name j"
        by blast
      then have "x \<in> set existing \<and> counter \<le> j \<and> x = suffixed_name name j" by simp
      then show "x \<in> ?S counter" by blast
    qed
    ultimately have "?S (Suc counter) \<subset> ?S counter" by blast
    then have "card (?S (Suc counter)) < card (?S counter)"
      using fin by (rule psubset_card_mono[rotated])
    from less[OF this] obtain k where k: "Suc counter \<le> k"
      "unique_name_loop existing name (Suc counter) = Some (suffixed_name name k)"
      "suffixed_name name k \<notin> set existing"
      "\<forall>j. Suc counter \<le> j \<and> j < k \<longrightarrow> suffixed_name name j \<in> set existing"
      by blast
    have "unique_name_loop existing name counter = Some (suffixed_name name k)"
      using True k(2) by (subst unique_name_loop.simps) simp
    moreover have "\<forall>j. counter \<le> j \<and> j < k \<longrightarrow> suffixed_name name j \<in> set existing"
    proof (intro allI impI)
      fix j assume j: "counter \<le> j \<and> j < k"
      show "suffixed_name name j \<in> set existing"
      proof (cases "j = counter")
        case True
        with \<open>suffixed_name name counter \<in> set existing\<close> show ?thesis by simp
      next
        case False
        with j have "Suc counter \<le> j \<and> j < k" by simp
        with k(4) show ?thesis by blast
      qed
    qed
    ultimately show ?thesis using k(1,3) by (intro exI[of _ k]) auto
  qed
qed

lemma first_free_bound:
  assumes "\<forall>j. counter \<le> j \<and> j < k \<longrightarrow> suffixed_name name j \<in> set existing" and "counter \<le> k"
  shows "k \<le> counter + length existing"
proof -
  have "suffixed_name name ` {counter..<k} \<subseteq> set existing"
    using assms(1) by auto
  moreover have "inj_on (suffixed_name name) {counter..<k}"
    by (rule inj_onI) (rule suffixed_name_inj)
  ultimately have "card {counter..<k} \<le> card (set existing)"
    by (metis card_image card_mono List.finite_set)
  also have "\<dots> \<le> length existing" by (rule card_length)
  finally show ?thesis by simp
qed

text \<open>
  Claim C6, as amended: the suffix search has no iteration cap, and yet it returns for
  every workbook and every name. Names with different counters differ (the digits after
  the last underscore give the counter back), so a workbook with \<open>n\<close> sheets cannot
  hold the first \<open>n + 1\<close> of them, and the search ends at a counter of at most
  \<open>n + 1\<close>.
\<close>

theorem make_unique_sheet_name_terminates:
  "\<exists>k. 1 \<le> k \<and> k \<le> length (worksheets wb) + 1
     \<and> make_unique_sheet_name wb name
         = Some (if name \<notin> set (map title (worksheets wb)) then name else suffixed_name name k)"
proof -
  obtain k where k: "1 \<le> k"
    "unique_name_loop (map title (worksheets wb)) name 1 = Some (suffixed_name name k)"
    "\<forall>j. 1 \<le> j \<and> j < k \<longrightarrow> suffixed_name name j \<in> set (map title (worksheets wb))"
    using unique_name_loop_returns[of 1 "map title (worksheets wb)" name] by blast
  from first_free_bound[OF k(3) k(1)] have "k \<le> length (worksheets wb) + 1" by simp
  with k(1,2) show ?thesis
    by (intro exI[of _ k]) (simp add: make_unique_sheet_name_def unique_sheet_name_def)
qed

text \<open>
  Against claim C6 as stated: no workbook and no name make the search run forever.
\<close>

theorem make_unique_sheet_name_never_loops:
  "\<not> (\<exists>wb name. make_unique_sheet_name wb name = None)"
proof
  assume "\<exists>wb name. make_unique_sheet_name wb name = None"
  then obtain wb name where n: "make_unique_sheet_name wb name = None" by blast
  obtain k where "unique_name_loop (map title (worksheets wb)) name 1 = Some (suffixed_name name k)"
    using unique_name_loop_returns[of 1 "map title (worksheets wb)" name] by blast
  with n show False
    by (simp add: make_unique_sheet_name_def unique_sheet_name_def split: if_splits)
qed

section \<open>Failure paths\<close>

text \<open>
  Claim C5 at a failing input: one source path that exists and does not parse. The call
  ends with the load error while the output workbook, opened before the loop, is still
  open: \<open>output_wb.close()\<close> stands only after \<open>save\<close>, on the path without errors.
\<close>

theorem consolidate_leaves_output_open:
  "map_option (\<lambda>r. (w_open (fst r), snd r))
     (consolidate_excel_files ''/app/downloads'' [''/data/broken.xlsx''] ''out.xlsx'' None broken_world)
   = Some ([OutputWorkbook], Inl (LoadError BadZipFile))"
  by (simp add: consolidate_excel_files_def broken_world_def base_world_def old_file_def
        os_path_exists_def load_workbook_def logger_def List.enumerate_eq_zip)

text \<open>
  \<open>list_downloads\<close> always returns its list: an entry whose \<open>get_file_info\<close> fails
  adds a warning to the log and nothing to the list.
\<close>

lemma list_loop_completes:
  "\<exists>w' files'. list_loop d entries (w, files) = (w', files')
      \<and> w_files w' = w_files w
      \<and> length files' \<le> length files + length entries"
proof (induction entries arbitrary: w files)
  case Nil
  show ?case by simp
next
  case (Cons e entries)
  let ?fp = "os_path_join d e"
  show ?case
  proof (cases "os_path_isfile w ?fp")
    case False
    with Cons.IH[of w files] show ?thesis by (auto simp: Let_def)
  next
    case True
    show ?thesis
    proof (cases "get_file_info w ?fp")
      case (Inl err)
      with True Cons.IH[of "logger LogWarning ''Error getting file info'' e w" files]
      show ?thesis by (auto simp: Let_def logger_def)
    next
      case (Inr info)
      with True Cons.IH[of w "files @ [info]"]
      show ?thesis by (auto simp: Let_def)
    qed
  qed
qed

lemma list_downloads_completes:
  "\<exists>w' files. list_downloads d entries w = (w', Inr files)"
  using list_loop_completes[of d entries w "[]"]
  by (auto simp: list_downloads_def)

text \<open>
  Claim C8 at a failing input: two old files, the first of which cannot be deleted.
  \<open>cleanup_old_files\<close> ends with the error of \<open>os.remove\<close> instead of a count, and
  the second old file is still there.
\<close>

theorem cleanup_aborts_on_locked_file:
  "snd (cleanup_old_files ''/app/downloads'' [''old_locked.xlsx'', ''old_free.xlsx''] 30 locked_world)
     = Inl (OSError PermissionError)
   \<and> os_path_exists
        (fst (cleanup_old_files ''/app/downloads'' [''old_locked.xlsx'', ''old_free.xlsx''] 30 locked_world))
        ''/app/downloads/old_free.xlsx''"
  by (simp add: cleanup_old_files_def datetime_in_range_def locked_world_def base_world_def
        old_file_def os_path_exists_def os_path_isfile_def os_stat_def os_remove_def
        os_path_join_def Let_def)

section \<open>The consolidation loops\<close>

lemma unique_sheet_name_Some:
  "\<exists>nm. unique_sheet_name existing name = Some nm \<and> nm \<notin> set existing"
proof (cases "name \<in> set existing")
  case False
  then show ?thesis by (simp add: unique_sheet_name_def)
next
  case True
  obtain k where "unique_name_loop existing name 1 = Some (suffixed_name name k)"
    "suffixed_name name k \<notin> set existing"
    using unique_name_loop_returns[of 1 existing name] by blast
  with True show ?thesis by (simp add: unique_sheet_name_def)
qed

lemma title_write_cell: "title (write_cell t rc v st) = title t"
  by (simp add: write_cell_def Let_def)

lemma title_copy_cell: "title (copy_cell r ic t) = title t"
  by (simp add: copy_cell_def title_write_cell split: cell.splits)

lemma title_copy_row: "title (copy_row ir t) = title t"
  unfolding copy_row_def
  by (rule fold_invariant[where Q = "\<lambda>x. True"]) (simp_all add: title_copy_cell)

lemma title_copy_sheet_data: "title (copy_sheet_data s t) = title t"
proof -
  have 1: "title (fold copy_row xs t) = title t" for xs
    by (rule fold_invariant[where Q = "\<lambda>x. True"]) (simp_all add: title_copy_row)
  have 2: "title (fold (\<lambda>merged_range t. merge_cells t merged_range) xs u) = title u" for xs u
    by (rule fold_invariant[where Q = "\<lambda>x. True"]) (simp_all add: merge_cells_def)
  have 3: "title (fold (\<lambda>cd t. t\<lparr>column_dimensions := AList.update (fst cd) (snd cd) (column_dimensions t)\<rparr>) xs u) = title u" for xs u
    by (rule fold_invariant[where Q = "\<lambda>x. True"]) simp_all
  have 4: "title (fold (\<lambda>rd t. t\<lparr>row_dimensions := AList.update (fst rd) (snd rd) (row_dimensions t)\<rparr>) xs u) = title u" for xs u
    by (rule fold_invariant[where Q = "\<lambda>x. True"]) simp_all
  show ?thesis
    by (simp add: copy_sheet_data_def Let_def 1 2 3 4)
qed

lemma copy_sheet_eq:
  assumes "unique_sheet_name (map title (worksheets out))
             (sanitize_sheet_name (candidate_sheet_name sn idx path src s)) = Some nm"
  shows "copy_sheet sn idx path src s (w, out, k)
         = Some (logger LogDebug ''Copied sheet'' nm w,
                 out\<lparr>worksheets := worksheets out
                       @ [copy_sheet_data s
                            (new_worksheet (assigned_title (map title (worksheets out)) nm))]\<rparr>,
                 Suc k)"
  using assms
  by (simp add: copy_sheet_def make_unique_sheet_name_def create_sheet_def Let_def)

lemma str_lower_length: "length (str_lower s) = length s"
  by (simp add: str_lower_def)

lemma title_matches_found:
  assumes "v \<noteq> []" and "str_lower n = str_lower v"
  shows "title_matches v (pre @ n @ post) \<noteq> []"
proof (induction pre)
  case Nil
  have len: "length n = length v"
    using assms(2) str_lower_length[of n] str_lower_length[of v] by simp
  with assms(1) have ne: "n @ post \<noteq> []" by auto
  from len have "take (length v) (n @ post) = n" by simp
  with assms ne show ?case
    by (subst title_matches.simps) simp
next
  case (Cons a pre)
  show ?case
  proof (cases "str_lower (take (length v) ((a # pre) @ n @ post)) = str_lower v")
    case True
    with assms(1) show ?thesis by (subst title_matches.simps) simp
  next
    case False
    with assms(1) Cons show ?thesis by (subst title_matches.simps) simp
  qed
qed

lemma join_names_split: "n \<in> set names \<Longrightarrow> \<exists>pre post. join_names names = pre @ n @ post"
proof (induction names rule: join_names.induct)
  case 1
  then show ?case by simp
next
  case (2 m)
  then have "join_names [m] = [] @ n @ []" by simp
  then show ?case by blast
next
  case (3 a b ns)
  show ?case
  proof (cases "n = a")
    case True
    then have "join_names (a # b # ns) = [] @ n @ ('','' @ join_names (b # ns))" by simp
    then show ?thesis by blast
  next
    case False
    with 3 obtain pre post where "join_names (b # ns) = pre @ n @ post" by auto
    then have "join_names (a # b # ns) = (a @ '','' @ pre) @ n @ post" by simp
    then show ?thesis by blast
  qed
qed

lemma avoid_duplicate_keeps:
  "\<not> list_ex (\<lambda>n. str_lower n = str_lower v) names \<Longrightarrow> avoid_duplicate_name names v = v"
  by (simp add: avoid_duplicate_name_def)

lemma avoid_duplicate_renames:
  assumes "v \<noteq> []" and "list_ex (\<lambda>n. str_lower n = str_lower v) names"
  shows "\<exists>k. avoid_duplicate_name names v = v @ str_nat k"
proof -
  from assms(2) obtain n where n: "n \<in> set names" "str_lower n = str_lower v"
    by (auto simp: list_ex_iff)
  from join_names_split[OF n(1)] obtain pre post where "join_names names = pre @ n @ post"
    by blast
  with title_matches_found[OF assms(1) n(2)] have "title_matches v (join_names names) \<noteq> []"
    by simp
  with assms(2) show ?thesis
    by (auto simp: avoid_duplicate_name_def Let_def)
qed

lemma digit_char_not_t: "d < 10 \<Longrightarrow> digit_char d \<noteq> CHR ''t''"
proof
  assume d: "d < 10" and "digit_char d = CHR ''t''"
  then have "(of_char (digit_char d) :: nat) = of_char CHR ''t''" by simp
  with d show False by (simp add: digit_char_def)
qed

lemma str_nat_last: "last (str_nat n) = digit_char (n mod 10)"
  by (subst str_nat.simps) simp

lemma numbered_not_sheet: "v @ str_nat k \<noteq> ''Sheet''"
proof
  assume a: "v @ str_nat k = ''Sheet''"
  have "last (v @ str_nat k) = digit_char (k mod 10)"
    using str_nat_nonempty[of k] by (simp add: str_nat_last)
  with a have "digit_char (k mod 10) = CHR ''t''" by simp
  moreover have "k mod 10 < 10" by simp
  ultimately show False using digit_char_not_t by blast
qed

lemma assigned_title_not_sheet:
  assumes "''Sheet'' \<in> set E" and "nm \<notin> set E"
  shows "assigned_title E nm \<noteq> ''Sheet''"
proof (cases "nm = []")
  case True
  have "list_ex (\<lambda>n. str_lower n = str_lower ''Sheet'') E"
    using assms(1) unfolding list_ex_iff by blast
  from avoid_duplicate_renames[OF _ this] obtain k where
    "avoid_duplicate_name E ''Sheet'' = ''Sheet'' @ str_nat k" by auto
  with True show ?thesis
    using numbered_not_sheet[of "''Sheet''" k] by (simp add: assigned_title_def)
next
  case False
  from assms have ns: "nm \<noteq> ''Sheet''" by auto
  show ?thesis
  proof (cases "list_ex (\<lambda>n. str_lower n = str_lower nm) E")
    case True
    from avoid_duplicate_renames[OF False True] obtain k where
      "avoid_duplicate_name E nm = nm @ str_nat k" by blast
    with False show ?thesis
      using numbered_not_sheet[of nm k] by (simp add: assigned_title_def)
  next
    case no: False
    with False ns show ?thesis
      by (simp add: assigned_title_def avoid_duplicate_keeps)
  qed
qed

lemma same_env_refl: "same_env w w"
  by (simp add: same_env_def quiet_log_def)

lemma same_env_trans: "same_env a b \<Longrightarrow> same_env b c \<Longrightarrow> same_env a c"
  by (auto simp: same_env_def quiet_log_def)

lemma same_env_logger: "lvl \<noteq> LogWarning \<Longrightarrow> same_env w (logger lvl msg f w)"
  by (simp add: same_env_def quiet_log_def logger_def)

lemma same_env_close: "same_env w (close_workbook h w)"
  by (simp add: same_env_def quiet_log_def close_workbook_def)

lemma copy_sheets_shape:
  "\<exists>w' new. copy_sheets sn idx path src sheets (w, out, k)
              = Some (w', out\<lparr>worksheets := worksheets out @ new\<rparr>, k + length sheets)
     \<and> placed (map title (worksheets out))
          (map (\<lambda>s. (sanitize_sheet_name (candidate_sheet_name sn idx path src s), s)) sheets) new
     \<and> length new = length sheets
     \<and> same_env w w' \<and> w_open w' = w_open w"
proof (induction sheets arbitrary: w out k)
  case Nil
  show ?case by (simp add: same_env_refl)
next
  case (Cons s sheets)
  let ?cand = "sanitize_sheet_name (candidate_sheet_name sn idx path src s)"
  obtain nm where nm: "unique_sheet_name (map title (worksheets out)) ?cand = Some nm"
    using unique_sheet_name_Some by blast
  let ?ti = "assigned_title (map title (worksheets out)) nm"
  let ?t = "copy_sheet_data s (new_worksheet ?ti)"
  let ?w1 = "logger LogDebug ''Copied sheet'' nm w"
  let ?out1 = "out\<lparr>worksheets := worksheets out @ [?t]\<rparr>"
  have step: "copy_sheet sn idx path src s (w, out, k) = Some (?w1, ?out1, Suc k)"
    by (rule copy_sheet_eq[OF nm])
  have tt: "title ?t = ?ti"
    by (simp add: title_copy_sheet_data new_worksheet_def)
  from Cons.IH[of ?w1 ?out1 "Suc k"] obtain w' new where
    r: "copy_sheets sn idx path src sheets (?w1, ?out1, Suc k)
          = Some (w', ?out1\<lparr>worksheets := worksheets ?out1 @ new\<rparr>, Suc k + length sheets)"
    and p: "placed (map title (worksheets ?out1))
          (map (\<lambda>s. (sanitize_sheet_name (candidate_sheet_name sn idx path src s), s)) sheets) new"
    and l: "length new = length sheets"
    and e: "same_env ?w1 w'" and o: "w_open w' = w_open ?w1"
    by blast
  have "copy_sheets sn idx path src (s # sheets) (w, out, k)
        = Some (w', out\<lparr>worksheets := worksheets out @ (?t # new)\<rparr>, k + length (s # sheets))"
    using step r by simp
  moreover have "placed (map title (worksheets out))
          (map (\<lambda>s. (sanitize_sheet_name (candidate_sheet_name sn idx path src s), s)) (s # sheets))
          (?t # new)"
    using p nm tt by simp
  moreover have "same_env w w'"
    using same_env_trans[OF same_env_logger e] by simp
  moreover have "w_open w' = w_open w" using o by (simp add: logger_def)
  ultimately show ?case using l
    by (intro exI[of _ w'] exI[of _ "?t # new"]) simp
qed

lemma placed_append:
  "placed E js1 n1 \<Longrightarrow> placed (E @ map title n1) js2 n2 \<Longrightarrow> placed E (js1 @ js2) (n1 @ n2)"
proof (induction E js1 n1 rule: placed.induct)
  case (1 existing new)
  then show ?case by simp
next
  case (2 existing job jobs)
  then show ?case by simp
next
  case (3 existing job jobs t ts)
  then show ?case by simp
qed

lemma placed_length: "placed E js new \<Longrightarrow> length new = length js"
  by (induction E js new rule: placed.induct) auto

lemma saved_workbook_load:
  "load_workbook w p = Inr (w1, d) \<Longrightarrow>
     saved_workbook w p = Some d \<and> w1 = w\<lparr>w_open := w_open w @ [SourceWorkbook p]\<rparr>"
  by (auto simp: load_workbook_def saved_workbook_def split: option.splits sum.splits)

lemma load_workbook_Inl:
  "load_workbook w p = Inl e \<Longrightarrow>
     saved_workbook w p = None
     \<and> ((w_files w p = None \<and> e = FileNotFoundError p)
        \<or> (\<exists>n le. w_files w p = Some n \<and> node_doc n = Inl le \<and> e = LoadError le))"
  by (auto simp: load_workbook_def saved_workbook_def split: option.splits sum.splits)

lemma saved_workbook_same_env: "same_env w w' \<Longrightarrow> saved_workbook w' p = saved_workbook w p"
  by (simp add: same_env_def saved_workbook_def)

lemma same_env_open: "same_env w (w\<lparr>w_open := x\<rparr>)"
  by (simp add: same_env_def quiet_log_def)

lemma process_files_shape:
  "\<exists>w' r. process_files sn (List.enumerate i paths) (w, out, k) = Some (w', r)
     \<and> same_env w w'
     \<and> (case r of
           Inl e \<Rightarrow>
             (\<exists>pre p post. paths = pre @ p # post
                \<and> list_all (\<lambda>q. saved_workbook w q \<noteq> None) pre
                \<and> ((w_files w p = None \<and> e = FileNotFoundError p)
                   \<or> (\<exists>n le. w_files w p = Some n \<and> node_doc n = Inl le \<and> e = LoadError le)))
         | Inr (out', k') \<Rightarrow>
             (\<exists>docs new. map (saved_workbook w) paths = map Some docs
                \<and> placed (map title (worksheets out)) (all_jobs sn i paths docs) new
                \<and> out' = out\<lparr>worksheets := worksheets out @ new\<rparr>
                \<and> k' = k + length new))"
proof (induction paths arbitrary: i w out k)
  case Nil
  show ?case by (simp add: same_env_refl all_jobs_def)
next
  case (Cons p paths)
  show ?case
  proof (cases "load_workbook w p")
    case (Inl e)
    from load_workbook_Inl[OF Inl]
    have "(w_files w p = None \<and> e = FileNotFoundError p)
          \<or> (\<exists>n le. w_files w p = Some n \<and> node_doc n = Inl le \<and> e = LoadError le)"
      by blast
    then have "\<exists>pre q post. p # paths = pre @ q # post
                \<and> list_all (\<lambda>q. saved_workbook w q \<noteq> None) pre
                \<and> ((w_files w q = None \<and> e = FileNotFoundError q)
                   \<or> (\<exists>n le. w_files w q = Some n \<and> node_doc n = Inl le \<and> e = LoadError le))"
      by (intro exI[of _ "[]"] exI[of _ p] exI[of _ paths]) simp
    with Inl show ?thesis
      by (intro exI[of _ "logger LogError ''Error processing file'' p w"] exI[of _ "Inl e"])
         (simp add: same_env_logger)
  next
    case (Inr x)
    obtain w1 d where x: "x = (w1, d)" by (cases x)
    from saved_workbook_load[OF Inr[unfolded x]]
    have d: "saved_workbook w p = Some d" and w1: "w1 = w\<lparr>w_open := w_open w @ [SourceWorkbook p]\<rparr>"
      by simp_all
    from copy_sheets_shape[of sn i p d "worksheets d" w1 out k] obtain w2 new1 where
      c: "copy_sheets sn i p d (worksheets d) (w1, out, k)
            = Some (w2, out\<lparr>worksheets := worksheets out @ new1\<rparr>, k + length (worksheets d))"
      and p1: "placed (map title (worksheets out)) (file_jobs sn (i, p, d)) new1"
      and l1: "length new1 = length (worksheets d)"
      and e1: "same_env w1 w2"
      unfolding file_jobs_def by auto
    let ?w3 = "close_workbook (SourceWorkbook p) w2"
    let ?out1 = "out\<lparr>worksheets := worksheets out @ new1\<rparr>"
    have e3: "same_env w ?w3"
      using same_env_trans[OF same_env_trans[OF same_env_open e1[unfolded w1]] same_env_close] .
    from Cons.IH[of "Suc i" ?w3 ?out1 "k + length (worksheets d)"] obtain w' r where
      r: "process_files sn (List.enumerate (Suc i) paths) (?w3, ?out1, k + length (worksheets d))
            = Some (w', r)"
      and e': "same_env ?w3 w'"
      and rr: "(case r of
           Inl e \<Rightarrow>
             (\<exists>pre p post. paths = pre @ p # post
                \<and> list_all (\<lambda>q. saved_workbook ?w3 q \<noteq> None) pre
                \<and> ((w_files ?w3 p = None \<and> e = FileNotFoundError p)
                   \<or> (\<exists>n le. w_files ?w3 p = Some n \<and> node_doc n = Inl le \<and> e = LoadError le)))
         | Inr (out', k') \<Rightarrow>
             (\<exists>docs new. map (saved_workbook ?w3) paths = map Some docs
                \<and> placed (map title (worksheets ?out1)) (all_jobs sn (Suc i) paths docs) new
                \<and> out' = ?out1\<lparr>worksheets := worksheets ?out1 @ new\<rparr>
                \<and> k' = k + length (worksheets d) + length new))"
      by blast
    have sw: "saved_workbook ?w3 q = saved_workbook w q" for q
      by (rule saved_workbook_same_env[OF e3])
    have wf: "w_files ?w3 = w_files w" using e3 by (simp add: same_env_def)
    have run: "process_files sn (List.enumerate i (p # paths)) (w, out, k) = Some (w', r)"
      using Inr x c r by simp
    have env: "same_env w w'" by (rule same_env_trans[OF e3 e'])
    show ?thesis
    proof (cases r)
      case (Inl e)
      with rr obtain pre q post where q: "paths = pre @ q # post"
        "list_all (\<lambda>q. saved_workbook w q \<noteq> None) pre"
        "(w_files w q = None \<and> e = FileNotFoundError q)
           \<or> (\<exists>n le. w_files w q = Some n \<and> node_doc n = Inl le \<and> e = LoadError le)"
        unfolding sw wf by auto
      have "\<exists>pre' q' post'. p # paths = pre' @ q' # post'
                \<and> list_all (\<lambda>q. saved_workbook w q \<noteq> None) pre'
                \<and> ((w_files w q' = None \<and> e = FileNotFoundError q')
                   \<or> (\<exists>n le. w_files w q' = Some n \<and> node_doc n = Inl le \<and> e = LoadError le))"
        using q d by (intro exI[of _ "p # pre"] exI[of _ q] exI[of _ post]) simp
      with run env Inl show ?thesis
        by (intro exI[of _ w'] exI[of _ r]) simp
    next
      case (Inr y)
      obtain out' k' where y: "y = (out', k')" by (cases y)
      from rr Inr y obtain docs new where dn:
        "map (saved_workbook w) paths = map Some docs"
        "placed (map title (worksheets ?out1)) (all_jobs sn (Suc i) paths docs) new"
        "out' = ?out1\<lparr>worksheets := worksheets ?out1 @ new\<rparr>"
        "k' = k + length (worksheets d) + length new"
        unfolding sw by auto
      have len: "length docs = length paths"
        using dn(1) by (metis length_map)
      have jobs: "all_jobs sn i (p # paths) (d # docs)
                  = file_jobs sn (i, p, d) @ all_jobs sn (Suc i) paths docs"
      proof -
        have "[i..<i + length (p # paths)] = i # [Suc i..<Suc i + length paths]"
          by (subst upt_rec) simp
        then show ?thesis unfolding all_jobs_def by simp
      qed
      have "placed (map title (worksheets out)) (all_jobs sn i (p # paths) (d # docs)) (new1 @ new)"
        unfolding jobs using p1 dn(2) by (intro placed_append) simp_all
      moreover have "map (saved_workbook w) (p # paths) = map Some (d # docs)"
        using d dn(1) by simp
      moreover have "out' = out\<lparr>worksheets := worksheets out @ (new1 @ new)\<rparr>"
        using dn(3) by simp
      moreover have "k' = k + length (new1 @ new)"
        using dn(4) l1 by simp
      ultimately have "\<exists>docs new. map (saved_workbook w) (p # paths) = map Some docs
                \<and> placed (map title (worksheets out)) (all_jobs sn i (p # paths) docs) new
                \<and> out' = out\<lparr>worksheets := worksheets out @ new\<rparr>
                \<and> k' = k + length new"
        by blast
      with run env Inr y show ?thesis
        by (intro exI[of _ w'] exI[of _ r]) simp
    qed
  qed
qed

lemma remove_default_new:
  "remove_default_sheet (new_workbook\<lparr>worksheets := worksheets new_workbook @ new\<rparr>) (0 + length new)
   = output_of new"
  by (cases new) (simp_all add: remove_default_sheet_def new_workbook_def new_worksheet_def output_of_def)

lemma q_refl: "quiet_log w w"
  by (simp add: quiet_log_def)

lemma consolidate_shape:
  "\<exists>w' r. consolidate_excel_files dir paths outn sn w = Some (w', r)
     \<and> quiet_log w w'
     \<and> (case r of
          Inl e \<Rightarrow>
            w_files w' = w_files w
            \<and> ((paths = [] \<and> w' = w \<and> e = ValueError ''No files provided for consolidation'')
               \<or> (\<exists>pre p post. paths = pre @ p # post \<and> list_all (os_path_exists w) pre
                    \<and> \<not> os_path_exists w p \<and> w' = w
                    \<and> e = FileNotFoundError (''File not found: '' @ p))
               \<or> (paths \<noteq> [] \<and> list_all (os_path_exists w) paths
                    \<and> (\<exists>pre p post n le. paths = pre @ p # post
                          \<and> list_all (\<lambda>q. saved_workbook w q \<noteq> None) pre
                          \<and> w_files w p = Some n \<and> node_doc n = Inl le \<and> e = LoadError le))
               \<or> (paths \<noteq> [] \<and> (\<exists>docs. map (saved_workbook w) paths = map Some docs)
                    \<and> (\<exists>oe. w_write w (os_path_join dir outn) = Inl oe \<and> e = OSError oe)))
        | Inr p \<Rightarrow>
            (\<exists>docs new st. paths \<noteq> [] \<and> map (saved_workbook w) paths = map Some docs
               \<and> placed [''Sheet''] (all_jobs sn 0 paths docs) new
               \<and> p = os_path_join dir outn \<and> w_write w p = Inr st
               \<and> w_files w' = (w_files w)(p \<mapsto> written_node st (stored_workbook (w_reread w) (output_of new)))))"
proof (cases "paths = []")
  case True
  then show ?thesis
    by (intro exI[of _ w] exI[of _ "Inl (ValueError ''No files provided for consolidation'')"])
       (simp add: consolidate_excel_files_def q_refl)
next
  case ne: False
  show ?thesis
  proof (cases "find (\<lambda>path. \<not> os_path_exists w path) paths")
    case (Some p)
    then obtain i where i: "i < length paths" "\<not> os_path_exists w (paths ! i)" "p = paths ! i"
      "\<forall>j<i. os_path_exists w (paths ! j)"
      unfolding find_Some_iff by auto
    have "paths = take i paths @ p # drop (Suc i) paths"
      using i(1,3) by (simp add: id_take_nth_drop)
    moreover have "list_all (os_path_exists w) (take i paths)"
      using i(1,4) by (auto simp: list_all_iff in_set_conv_nth)
    ultimately have "\<exists>pre q post. paths = pre @ q # post \<and> list_all (os_path_exists w) pre
                    \<and> \<not> os_path_exists w q \<and> w = w
                    \<and> FileNotFoundError (''File not found: '' @ p) = FileNotFoundError (''File not found: '' @ q)"
      using i(2,3) by (intro exI[of _ "take i paths"] exI[of _ p] exI[of _ "drop (Suc i) paths"]) simp
    with Some ne show ?thesis
      by (intro exI[of _ w] exI[of _ "Inl (FileNotFoundError (''File not found: '' @ p))"])
         (simp add: consolidate_excel_files_def q_refl)
  next
    case None
    then have ex: "list_all (os_path_exists w) paths"
      by (auto simp: find_None_iff list_all_iff)
    let ?w0 = "logger LogInfo ''Consolidating Excel files'' outn w"
    let ?w1 = "?w0\<lparr>w_open := w_open ?w0 @ [OutputWorkbook]\<rparr>"
    let ?p = "os_path_join dir outn"
    have e1: "same_env w ?w1"
      by (rule same_env_trans[OF same_env_logger same_env_open]) simp
    have sw: "saved_workbook ?w1 q = saved_workbook w q" for q
      by (rule saved_workbook_same_env[OF e1])
    have wf: "w_files ?w1 = w_files w" using e1 by (simp add: same_env_def)
    from process_files_shape[of sn 0 paths ?w1 new_workbook 0] obtain w2 r where
      run: "process_files sn (List.enumerate 0 paths) (?w1, new_workbook, 0) = Some (w2, r)"
      and e2: "same_env ?w1 w2"
      and rr: "(case r of
           Inl e \<Rightarrow>
             (\<exists>pre p post. paths = pre @ p # post
                \<and> list_all (\<lambda>q. saved_workbook w q \<noteq> None) pre
                \<and> ((w_files w p = None \<and> e = FileNotFoundError p)
                   \<or> (\<exists>n le. w_files w p = Some n \<and> node_doc n = Inl le \<and> e = LoadError le)))
         | Inr (out', k') \<Rightarrow>
             (\<exists>docs new. map (saved_workbook w) paths = map Some docs
                \<and> placed (map title (worksheets new_workbook)) (all_jobs sn 0 paths docs) new
                \<and> out' = new_workbook\<lparr>worksheets := worksheets new_workbook @ new\<rparr>
                \<and> k' = 0 + length new))"
      unfolding sw wf by blast
    have e02: "same_env w w2" by (rule same_env_trans[OF e1 e2])
    then have q02: "quiet_log w w2" by (simp add: same_env_def)
    show ?thesis
    proof (cases r)
      case (Inl e)
      with rr obtain pre p post where d: "paths = pre @ p # post"
        "list_all (\<lambda>q. saved_workbook w q \<noteq> None) pre"
        "(w_files w p = None \<and> e = FileNotFoundError p)
           \<or> (\<exists>n le. w_files w p = Some n \<and> node_doc n = Inl le \<and> e = LoadError le)"
        by auto
      have "os_path_exists w p" using ex d(1) by simp
      with d(3) obtain n le where "w_files w p = Some n" "node_doc n = Inl le" "e = LoadError le"
        by (auto simp: os_path_exists_def)
      with d(1,2) have "\<exists>pre p post n le. paths = pre @ p # post
                          \<and> list_all (\<lambda>q. saved_workbook w q \<noteq> None) pre
                          \<and> w_files w p = Some n \<and> node_doc n = Inl le \<and> e = LoadError le"
        by blast
      moreover have "consolidate_excel_files dir paths outn sn w = Some (w2, Inl e)"
        using ne None run Inl by (simp add: consolidate_excel_files_def Let_def)
      moreover have "w_files w2 = w_files w" using e02 by (simp add: same_env_def)
      ultimately show ?thesis using q02 ne ex
        by (intro exI[of _ w2] exI[of _ "Inl e"]) simp
    next
      case (Inr y)
      obtain out' k' where y: "y = (out', k')" by (cases y)
      from rr Inr y obtain docs new where dn:
        "map (saved_workbook w) paths = map Some docs"
        "placed (map title (worksheets new_workbook)) (all_jobs sn 0 paths docs) new"
        "out' = new_workbook\<lparr>worksheets := worksheets new_workbook @ new\<rparr>"
        "k' = 0 + length new"
        by auto
      have rd: "remove_default_sheet out' k' = output_of new"
        unfolding dn(3,4) by (rule remove_default_new)
      have pl: "placed [''Sheet''] (all_jobs sn 0 paths docs) new"
        using dn(2) by (simp add: new_workbook_def new_worksheet_def)
      have ww: "w_write w2 = w_write w" and wf2: "w_files w2 = w_files w"
        and wr2: "w_reread w2 = w_reread w"
        using e02 by (simp_all add: same_env_def)
      show ?thesis
      proof (cases "w_write w ?p")
        case (Inl oe)
        have "consolidate_excel_files dir paths outn sn w = Some (w2, Inl (OSError oe))"
          using ne None run Inr y rd Inl ww
          by (simp add: consolidate_excel_files_def Let_def wb_save_def)
        with q02 wf2 ne dn(1) Inl show ?thesis
          by (intro exI[of _ w2] exI[of _ "Inl (OSError oe)"]) auto
      next
        case st: (Inr st)
        let ?w3 = "w2\<lparr>w_files := (w_files w2)(?p \<mapsto> written_node st (stored_workbook (w_reread w) (output_of new)))\<rparr>"
        let ?w4 = "logger LogInfo ''Consolidation complete'' ?p (close_workbook OutputWorkbook ?w3)"
        have c: "consolidate_excel_files dir paths outn sn w = Some (?w4, Inr ?p)"
          using ne None run Inr y rd st ww wr2
          by (simp add: consolidate_excel_files_def Let_def wb_save_def written_node_def)
        have f4: "w_files ?w4 = (w_files w)(?p \<mapsto> written_node st (stored_workbook (w_reread w) (output_of new)))"
          using wf2 by (simp add: logger_def close_workbook_def)
        have "\<exists>docs new st. paths \<noteq> [] \<and> map (saved_workbook w) paths = map Some docs
               \<and> placed [''Sheet''] (all_jobs sn 0 paths docs) new
               \<and> ?p = os_path_join dir outn \<and> w_write w ?p = Inr st
               \<and> w_files ?w4 = (w_files w)(?p \<mapsto> written_node st (stored_workbook (w_reread w) (output_of new)))"
          using ne dn(1) pl st f4 by blast
        moreover have "quiet_log w ?w4"
        proof -
          from e02 obtain l where l: "w_log w2 = w_log w @ l" "list_all (\<lambda>e. fst e \<noteq> LogWarning) l"
            by (auto simp: same_env_def quiet_log_def)
          have "w_log ?w4 = w_log w @ (l @ [(LogInfo, ''Consolidation complete'', ?p)])"
            using l(1) by (simp add: logger_def close_workbook_def)
          moreover have "list_all (\<lambda>e. fst e \<noteq> LogWarning) (l @ [(LogInfo, ''Consolidation complete'', ?p)])"
            using l(2) by simp
          ultimately show ?thesis
            unfolding quiet_log_def by blast
        qed
        ultimately show ?thesis using c
          by (intro exI[of _ ?w4] exI[of _ "Inr ?p"]) simp
      qed
    qed
  qed
qed

lemma first_fail_unique:
  "pre @ p # post = pre' @ q # post' \<Longrightarrow> list_all P pre \<Longrightarrow> \<not> P p
     \<Longrightarrow> list_all P pre' \<Longrightarrow> \<not> P q \<Longrightarrow> pre = pre' \<and> p = q"
proof (induction pre arbitrary: pre')
  case Nil
  then show ?case by (cases pre') auto
next
  case (Cons a pre)
  then show ?case by (cases pre') auto
qed

lemma find_first_missing:
  "list_all P pre \<Longrightarrow> \<not> P p \<Longrightarrow> find (\<lambda>x. \<not> P x) (pre @ p # post) = Some p"
  by (induction pre) auto

lemma docs_all_saved:
  "map (saved_workbook w) paths = map Some docs \<Longrightarrow> q \<in> set paths \<Longrightarrow> saved_workbook w q \<noteq> None"
proof -
  assume a: "map (saved_workbook w) paths = map Some docs" and q: "q \<in> set paths"
  then have "saved_workbook w q \<in> set (map Some docs)" by (metis image_eqI set_map)
  then show ?thesis by auto
qed

text \<open>
  Claim C3: an empty source list fails with the \<open>ValueError\<close> of the first check and a
  missing source with the \<open>FileNotFoundError\<close> naming the first missing path, both
  with the world untouched (nothing was loaded, logged or written); an existing source
  that does not parse fails the job with the error of \<open>load_workbook\<close>; and whenever
  the job fails, the files are what they were, so no output file was written.
\<close>

theorem consolidate_failures_write_nothing:
  "consolidate_excel_files dir [] outn sn w
     = Some (w, Inl (ValueError ''No files provided for consolidation''))
   \<and> (list_all (os_path_exists w) pre \<and> \<not> os_path_exists w p \<longrightarrow>
        consolidate_excel_files dir (pre @ p # post) outn sn w
          = Some (w, Inl (FileNotFoundError (''File not found: '' @ p))))
   \<and> (list_all (os_path_exists w) (pre @ p # post)
        \<and> list_all (\<lambda>q. saved_workbook w q \<noteq> None) pre
        \<and> w_files w p = Some n \<and> node_doc n = Inl le \<longrightarrow>
        (\<exists>w'. consolidate_excel_files dir (pre @ p # post) outn sn w = Some (w', Inl (LoadError le))
           \<and> w_files w' = w_files w))
   \<and> (consolidate_excel_files dir paths outn sn w = Some (w', Inl e) \<longrightarrow> w_files w' = w_files w)"
proof (intro conjI impI)
  show "consolidate_excel_files dir [] outn sn w
          = Some (w, Inl (ValueError ''No files provided for consolidation''))"
    by (simp add: consolidate_excel_files_def)
next
  assume "list_all (os_path_exists w) pre \<and> \<not> os_path_exists w p"
  then have "find (\<lambda>path. \<not> os_path_exists w path) (pre @ p # post) = Some p"
    by (intro find_first_missing) simp_all
  then show "consolidate_excel_files dir (pre @ p # post) outn sn w
          = Some (w, Inl (FileNotFoundError (''File not found: '' @ p)))"
    by (simp add: consolidate_excel_files_def)
next
  assume a: "list_all (os_path_exists w) (pre @ p # post)
        \<and> list_all (\<lambda>q. saved_workbook w q \<noteq> None) pre
        \<and> w_files w p = Some n \<and> node_doc n = Inl le"
  let ?paths = "pre @ p # post"
  have pn: "saved_workbook w p = None" using a by (simp add: saved_workbook_def)
  from consolidate_shape[of dir ?paths outn sn w] obtain w' r where
    run: "consolidate_excel_files dir ?paths outn sn w = Some (w', r)"
    and sh: "(case r of
          Inl e \<Rightarrow>
            w_files w' = w_files w
            \<and> ((?paths = [] \<and> w' = w \<and> e = ValueError ''No files provided for consolidation'')
               \<or> (\<exists>pre' p' post'. ?paths = pre' @ p' # post' \<and> list_all (os_path_exists w) pre'
                    \<and> \<not> os_path_exists w p' \<and> w' = w
                    \<and> e = FileNotFoundError (''File not found: '' @ p'))
               \<or> (?paths \<noteq> [] \<and> list_all (os_path_exists w) ?paths
                    \<and> (\<exists>pre' p' post' n le. ?paths = pre' @ p' # post'
                          \<and> list_all (\<lambda>q. saved_workbook w q \<noteq> None) pre'
                          \<and> w_files w p' = Some n \<and> node_doc n = Inl le \<and> e = LoadError le))
               \<or> (?paths \<noteq> [] \<and> (\<exists>docs. map (saved_workbook w) ?paths = map Some docs)
                    \<and> (\<exists>oe. w_write w (os_path_join dir outn) = Inl oe \<and> e = OSError oe)))
        | Inr p' \<Rightarrow>
            (\<exists>docs new st. ?paths \<noteq> [] \<and> map (saved_workbook w) ?paths = map Some docs
               \<and> placed [''Sheet''] (all_jobs sn 0 ?paths docs) new
               \<and> p' = os_path_join dir outn \<and> w_write w p' = Inr st
               \<and> w_files w' = (w_files w)(p' \<mapsto> written_node st (stored_workbook (w_reread w) (output_of new)))))"
    by blast
  have nodocs: "\<not> (\<exists>docs. map (saved_workbook w) ?paths = map Some docs)"
    using docs_all_saved[of w ?paths _ p] pn by auto
  show "\<exists>w'. consolidate_excel_files dir ?paths outn sn w = Some (w', Inl (LoadError le))
           \<and> w_files w' = w_files w"
  proof (cases r)
    case (Inr p')
    with sh nodocs show ?thesis by auto
  next
    case (Inl e)
    with sh have f: "w_files w' = w_files w" by simp
    from Inl sh have
      "(\<exists>pre' p' post'. ?paths = pre' @ p' # post' \<and> list_all (os_path_exists w) pre'
                    \<and> \<not> os_path_exists w p')
       \<or> (\<exists>pre' p' post' n le. ?paths = pre' @ p' # post'
                          \<and> list_all (\<lambda>q. saved_workbook w q \<noteq> None) pre'
                          \<and> w_files w p' = Some n \<and> node_doc n = Inl le \<and> e = LoadError le)"
      using nodocs by auto
    then show ?thesis
    proof
      assume "\<exists>pre' p' post'. ?paths = pre' @ p' # post' \<and> list_all (os_path_exists w) pre'
                    \<and> \<not> os_path_exists w p'"
      then obtain pre' p' post' where "?paths = pre' @ p' # post'" "\<not> os_path_exists w p'"
        by blast
      then have "p' \<in> set ?paths" by (metis in_set_conv_decomp)
      with a \<open>\<not> os_path_exists w p'\<close> show ?thesis
        by (auto simp: list_all_iff)
    next
      assume "\<exists>pre' p' post' n le. ?paths = pre' @ p' # post'
                          \<and> list_all (\<lambda>q. saved_workbook w q \<noteq> None) pre'
                          \<and> w_files w p' = Some n \<and> node_doc n = Inl le \<and> e = LoadError le"
      then obtain pre' p' post' n' le' where d: "?paths = pre' @ p' # post'"
        "list_all (\<lambda>q. saved_workbook w q \<noteq> None) pre'"
        "w_files w p' = Some n'" "node_doc n' = Inl le'" "e = LoadError le'"
        by blast
      have "saved_workbook w p' = None" using d(3,4) by (simp add: saved_workbook_def)
      with first_fail_unique[OF d(1), of "\<lambda>q. saved_workbook w q \<noteq> None"] a pn d(2)
      have "p = p'" by auto
      with a d(3,4,5) have "e = LoadError le" by simp
      with run Inl f show ?thesis by simp
    qed
  qed
next
  assume r: "consolidate_excel_files dir paths outn sn w = Some (w', Inl e)"
  from consolidate_shape[of dir paths outn sn w] r show "w_files w' = w_files w"
    by auto
qed

lemma unique_sheet_name_fresh: "unique_sheet_name E c = Some nm \<Longrightarrow> nm \<notin> set E"
  using unique_sheet_name_Some[of E c] by auto

lemma placed_no_sheet:
  "placed E jobs new \<Longrightarrow> ''Sheet'' \<in> set E \<Longrightarrow> ''Sheet'' \<notin> set (map title new)"
proof (induction E jobs new rule: placed.induct)
  case (1 existing new)
  then show ?case by simp
next
  case (2 existing job jobs)
  then show ?case by simp
next
  case (3 existing job jobs t ts)
  from 3(2) obtain nm where u: "unique_sheet_name existing (fst job) = Some nm"
    and tt: "title t = assigned_title existing nm"
    and p: "placed (existing @ [title t]) jobs ts" by auto
  from assigned_title_not_sheet[OF 3(3) unique_sheet_name_fresh[OF u]] tt
  have "title t \<noteq> ''Sheet''" by simp
  moreover from 3(3) have "''Sheet'' \<in> set (existing @ [title t])" by simp
  from 3(1)[OF p this] have "''Sheet'' \<notin> set (map title ts)" .
  ultimately show ?case by auto
qed

lemma placed_deterministic:
  "placed E jobs n1 \<Longrightarrow> placed E jobs n2 \<Longrightarrow> n1 = n2"
proof (induction E jobs n1 arbitrary: n2 rule: placed.induct)
  case (1 existing new)
  then show ?case by simp
next
  case (2 existing job jobs)
  then show ?case by simp
next
  case (3 existing job jobs t ts)
  from 3(3) obtain t' ts' where n2: "n2 = t' # ts'" by (cases n2) auto
  from 3(2) have a:
    "map_option (assigned_title existing) (unique_sheet_name existing (fst job)) = Some (title t)"
    "t = copy_sheet_data (snd job) (new_worksheet (title t))"
    "placed (existing @ [title t]) jobs ts" by simp_all
  from 3(3) n2 have b:
    "map_option (assigned_title existing) (unique_sheet_name existing (fst job)) = Some (title t')"
    "t' = copy_sheet_data (snd job) (new_worksheet (title t'))"
    "placed (existing @ [title t']) jobs ts'" by simp_all
  from a(1) b(1) have tt: "title t = title t'" by simp
  with a(2) b(2) have "t = t'" by simp
  moreover from 3(1)[OF a(3)] b(3) tt have "ts = ts'" by simp
  ultimately show ?case using n2 by simp
qed

lemma length_all_jobs:
  "length docs = length paths \<Longrightarrow>
     length (all_jobs sn i paths docs) = sum_list (map (\<lambda>d. length (worksheets d)) docs)"
proof (induction paths arbitrary: i docs)
  case Nil
  then show ?case by (simp add: all_jobs_def)
next
  case (Cons p paths)
  then obtain d ds where docs: "docs = d # ds" by (cases docs) auto
  have u: "[i..<i + length (p # paths)] = i # [Suc i..<Suc i + length paths]"
    by (subst upt_rec) simp
  have "all_jobs sn i (p # paths) (d # ds) = file_jobs sn (i, p, d) @ all_jobs sn (Suc i) paths ds"
    unfolding all_jobs_def u by simp
  moreover have "length (all_jobs sn (Suc i) paths ds) = sum_list (map (\<lambda>d. length (worksheets d)) ds)"
    using Cons.IH[of ds "Suc i"] Cons.prems docs by simp
  ultimately show ?case using docs by (simp add: file_jobs_def)
qed

lemma docs_length: "map (saved_workbook w) paths = map Some docs \<Longrightarrow> length docs = length paths"
  by (metis length_map)

lemma sum_zero_iff_all_empty:
  "(sum_list (map (\<lambda>d. length (worksheets d)) docs) = 0) = list_all (\<lambda>d. worksheets d = []) docs"
  by (induction docs) auto

lemma consolidate_success:
  assumes "consolidate_excel_files dir paths outn sn w = Some (w', Inr p)"
  shows "\<exists>docs new st. paths \<noteq> [] \<and> map (saved_workbook w) paths = map Some docs
               \<and> placed [''Sheet''] (all_jobs sn 0 paths docs) new
               \<and> p = os_path_join dir outn \<and> w_write w p = Inr st
               \<and> w_files w' = (w_files w)(p \<mapsto> written_node st (stored_workbook (w_reread w) (output_of new)))
               \<and> quiet_log w w'"
  using consolidate_shape[of dir paths outn sn w] assms by auto

lemma consolidate_total: "\<exists>w' r. consolidate_excel_files dir paths outn sn w = Some (w', r)"
  using consolidate_shape[of dir paths outn sn w] by blast

lemma consolidate_failure:
  assumes "consolidate_excel_files dir paths outn sn w = Some (w', Inl e)"
  shows "w_files w' = w_files w
            \<and> ((paths = [] \<and> w' = w \<and> e = ValueError ''No files provided for consolidation'')
               \<or> (\<exists>pre p post. paths = pre @ p # post \<and> list_all (os_path_exists w) pre
                    \<and> \<not> os_path_exists w p \<and> w' = w
                    \<and> e = FileNotFoundError (''File not found: '' @ p))
               \<or> (paths \<noteq> [] \<and> list_all (os_path_exists w) paths
                    \<and> (\<exists>pre p post n le. paths = pre @ p # post
                          \<and> list_all (\<lambda>q. saved_workbook w q \<noteq> None) pre
                          \<and> w_files w p = Some n \<and> node_doc n = Inl le \<and> e = LoadError le))
               \<or> (paths \<noteq> [] \<and> (\<exists>docs. map (saved_workbook w) paths = map Some docs)
                    \<and> (\<exists>oe. w_write w (os_path_join dir outn) = Inl oe \<and> e = OSError oe)))"
  using consolidate_shape[of dir paths outn sn w] assms by auto

lemma consolidate_succeeds:
  assumes "paths \<noteq> []" and "map (saved_workbook w) paths = map Some docs"
    and "w_write w (os_path_join dir outn) = Inr st"
  shows "\<exists>w'. consolidate_excel_files dir paths outn sn w = Some (w', Inr (os_path_join dir outn))"
proof -
  have sv: "saved_workbook w q \<noteq> None" if "q \<in> set paths" for q
    using docs_all_saved[OF assms(2) that] .
  have ex: "os_path_exists w q" if "q \<in> set paths" for q
    using sv[OF that] by (auto simp: saved_workbook_def os_path_exists_def split: option.splits)
  from consolidate_total[of dir paths outn sn w] obtain w' r where
    run: "consolidate_excel_files dir paths outn sn w = Some (w', r)"
    by blast
  show ?thesis
  proof (cases r)
    case (Inr p)
    with run consolidate_success[of dir paths outn sn w w' p] show ?thesis by auto
  next
    case (Inl e)
    with run have "consolidate_excel_files dir paths outn sn w = Some (w', Inl e)" by simp
    from consolidate_failure[OF this] have
      "(paths = [] \<and> w' = w \<and> e = ValueError ''No files provided for consolidation'')
       \<or> (\<exists>pre p post. paths = pre @ p # post \<and> list_all (os_path_exists w) pre
                    \<and> \<not> os_path_exists w p \<and> w' = w
                    \<and> e = FileNotFoundError (''File not found: '' @ p))
       \<or> (paths \<noteq> [] \<and> list_all (os_path_exists w) paths
                    \<and> (\<exists>pre p post n le. paths = pre @ p # post
                          \<and> list_all (\<lambda>q. saved_workbook w q \<noteq> None) pre
                          \<and> w_files w p = Some n \<and> node_doc n = Inl le \<and> e = LoadError le))
       \<or> (paths \<noteq> [] \<and> (\<exists>docs. map (saved_workbook w) paths = map Some docs)
                    \<and> (\<exists>oe. w_write w (os_path_join dir outn) = Inl oe \<and> e = OSError oe))"
      by (rule conjunct2)
    then show ?thesis
    proof (elim disjE)
      assume "paths = [] \<and> w' = w \<and> e = ValueError ''No files provided for consolidation''"
      with assms(1) show ?thesis by simp
    next
      assume "\<exists>pre p post. paths = pre @ p # post \<and> list_all (os_path_exists w) pre
                    \<and> \<not> os_path_exists w p \<and> w' = w
                    \<and> e = FileNotFoundError (''File not found: '' @ p)"
      then obtain pre p post where b: "paths = pre @ p # post" "\<not> os_path_exists w p"
        by blast
      then have "p \<in> set paths" by simp
      with ex b(2) show ?thesis by blast
    next
      assume "paths \<noteq> [] \<and> list_all (os_path_exists w) paths
                    \<and> (\<exists>pre p post n le. paths = pre @ p # post
                          \<and> list_all (\<lambda>q. saved_workbook w q \<noteq> None) pre
                          \<and> w_files w p = Some n \<and> node_doc n = Inl le \<and> e = LoadError le)"
      then obtain pre p post n le where c: "paths = pre @ p # post" "w_files w p = Some n"
        "node_doc n = Inl le"
        by blast
      then have "p \<in> set paths" by simp
      from sv[OF this] c(2,3) show ?thesis by (simp add: saved_workbook_def)
    next
      assume "paths \<noteq> [] \<and> (\<exists>docs. map (saved_workbook w) paths = map Some docs)
                    \<and> (\<exists>oe. w_write w (os_path_join dir outn) = Inl oe \<and> e = OSError oe)"
      with assms(3) show ?thesis by auto
    qed
  qed
qed

lemma stored_workbook_new: "stored_workbook rr new_workbook = new_workbook"
  by (simp add: stored_workbook_def stored_sheet_def new_workbook_def new_worksheet_def)

lemma titles_stored_workbook:
  "map title (worksheets (stored_workbook rr wb)) = map title (worksheets wb)"
  "length (worksheets (stored_workbook rr wb)) = length (worksheets wb)"
  by (simp_all add: stored_workbook_def stored_sheet_def comp_def)

lemma stored_output_count:
  assumes "consolidate_excel_files dir paths outn sn w = Some (w', Inr p)"
  shows "\<exists>docs wb. map (saved_workbook w) paths = map Some docs \<and> saved_workbook w' p = Some wb
         \<and> (if list_all (\<lambda>d. worksheets d = []) docs
            then wb = new_workbook
            else ''Sheet'' \<notin> set (map title (worksheets wb))
                 \<and> length (worksheets wb) = sum_list (map (\<lambda>d. length (worksheets d)) docs))"
proof -
  from consolidate_success[OF assms] obtain docs new st where
    d: "map (saved_workbook w) paths = map Some docs"
    and pl: "placed [''Sheet''] (all_jobs sn 0 paths docs) new"
    and f: "w_files w' = (w_files w)(p \<mapsto> written_node st (stored_workbook (w_reread w) (output_of new)))"
    by blast
  let ?out = "stored_workbook (w_reread w) (output_of new)"
  have sv: "saved_workbook w' p = Some ?out"
    using f by (simp add: saved_workbook_def written_node_def)
  have len: "length new = sum_list (map (\<lambda>d. length (worksheets d)) docs)"
    using placed_length[OF pl] length_all_jobs[OF docs_length[OF d]] by simp
  have fresh: "''Sheet'' \<notin> set (map title new)"
    by (rule placed_no_sheet[OF pl]) simp
  have "if list_all (\<lambda>d. worksheets d = []) docs
        then ?out = new_workbook
        else ''Sheet'' \<notin> set (map title (worksheets ?out))
             \<and> length (worksheets ?out) = sum_list (map (\<lambda>d. length (worksheets d)) docs)"
  proof (cases "list_all (\<lambda>d. worksheets d = []) docs")
    case True
    then have "sum_list (map (\<lambda>d. length (worksheets d)) docs) = 0"
      by (simp only: sum_zero_iff_all_empty)
    with len have "length new = 0" by (rule ssubst)
    then have "new = []" by simp
    with True show ?thesis
      by (simp add: output_of_def new_workbook_def stored_workbook_new[unfolded new_workbook_def])
  next
    case False
    then have "sum_list (map (\<lambda>d. length (worksheets d)) docs) \<noteq> 0"
      by (simp only: sum_zero_iff_all_empty not_False_eq_True)
    with len have "length new \<noteq> 0" by (rule ssubst)
    then have "new \<noteq> []" by simp
    with False fresh len show ?thesis by (simp add: output_of_def titles_stored_workbook)
  qed
  with d sv show ?thesis
    by blast
qed

text \<open>
  Claim C4, as amended: when the job returns, the stored output is the new workbook
  with its placeholder alone if no sheet was copied, and otherwise holds exactly the
  copied sheets, none of them titled \<open>Sheet\<close>: the placeholder is gone. A job whose
  sources all load and whose output can be written does return, also when it copies
  nothing.
\<close>

theorem placeholder_rule:
  "(consolidate_excel_files dir paths outn sn w = Some (w', Inr p) \<longrightarrow>
      (\<exists>docs wb. map (saved_workbook w) paths = map Some docs \<and> saved_workbook w' p = Some wb
         \<and> (if list_all (\<lambda>d. worksheets d = []) docs
            then wb = new_workbook
            else ''Sheet'' \<notin> set (map title (worksheets wb))
                 \<and> length (worksheets wb) = sum_list (map (\<lambda>d. length (worksheets d)) docs))))
   \<and> (paths \<noteq> [] \<and> map (saved_workbook w) paths = map Some docs
        \<and> w_write w (os_path_join dir outn) = Inr st \<longrightarrow>
        (\<exists>w'. consolidate_excel_files dir paths outn sn w = Some (w', Inr (os_path_join dir outn))))"
proof (intro conjI impI)
  assume "consolidate_excel_files dir paths outn sn w = Some (w', Inr p)"
  then show "\<exists>docs wb. map (saved_workbook w) paths = map Some docs \<and> saved_workbook w' p = Some wb
         \<and> (if list_all (\<lambda>d. worksheets d = []) docs
            then wb = new_workbook
            else ''Sheet'' \<notin> set (map title (worksheets wb))
                 \<and> length (worksheets wb) = sum_list (map (\<lambda>d. length (worksheets d)) docs))"
    by (rule stored_output_count)
next
  assume "paths \<noteq> [] \<and> map (saved_workbook w) paths = map Some docs
        \<and> w_write w (os_path_join dir outn) = Inr st"
  then show "\<exists>w'. consolidate_excel_files dir paths outn sn w = Some (w', Inr (os_path_join dir outn))"
    using consolidate_succeeds by blast
qed

text \<open>
  Against claim C4 as stated: a source workbook without worksheets. The job does not
  fail; it returns the output path, and the stored output holds the placeholder only.
\<close>

theorem placeholder_only_output:
  "output_titles
     (consolidate_excel_files ''/app/downloads'' [''/data/charts.xlsx''] ''out.xlsx'' None
        chart_only_world)
   = Some [''Sheet'']"
  by (simp add: output_titles_def consolidate_excel_files_def chart_only_world_def base_world_def
        os_path_exists_def load_workbook_def logger_def close_workbook_def wb_save_def
        remove_default_sheet_def new_workbook_def new_worksheet_def os_path_join_def
        saved_workbook_def stored_workbook_def stored_sheet_def List.enumerate_eq_zip Let_def)

theorem placeholder_rule_witness:
  "\<exists>w'. consolidate_excel_files ''/app/downloads'' [''/data/charts.xlsx''] ''out.xlsx'' None
           chart_only_world = Some (w', Inr ''/app/downloads/out.xlsx'')
        \<and> saved_workbook w' ''/app/downloads/out.xlsx'' = Some new_workbook"
proof -
  let ?w = chart_only_world
  have d: "map (saved_workbook ?w) [''/data/charts.xlsx''] = map Some [\<lparr>worksheets = []\<rparr>]"
    by (simp add: saved_workbook_def chart_only_world_def)
  have wr: "w_write ?w (os_path_join ''/app/downloads'' ''out.xlsx'')
            = Inr \<lparr>st_size = 5000, st_ctime = 8640000, st_mtime = 8640000\<rparr>"
    by (simp add: chart_only_world_def base_world_def)
  have j: "os_path_join ''/app/downloads'' ''out.xlsx'' = ''/app/downloads/out.xlsx''"
    by (simp add: os_path_join_def)
  note r = placeholder_rule[of "''/app/downloads''" "[''/data/charts.xlsx'']" "''out.xlsx''" None ?w
      _ "''/app/downloads/out.xlsx''" "[\<lparr>worksheets = []\<rparr>]"
      "\<lparr>st_size = 5000, st_ctime = 8640000, st_mtime = 8640000\<rparr>"]
  from r d wr obtain w' where
    run: "consolidate_excel_files ''/app/downloads'' [''/data/charts.xlsx''] ''out.xlsx'' None ?w
            = Some (w', Inr ''/app/downloads/out.xlsx'')"
    unfolding j by blast
  from placeholder_rule[of "''/app/downloads''" "[''/data/charts.xlsx'']" "''out.xlsx''" None ?w
      w' "''/app/downloads/out.xlsx''"] run
  obtain docs wb where x: "map (saved_workbook ?w) [''/data/charts.xlsx''] = map Some docs"
    "saved_workbook w' ''/app/downloads/out.xlsx'' = Some wb"
    "if list_all (\<lambda>d. worksheets d = []) docs then wb = new_workbook
     else ''Sheet'' \<notin> set (map title (worksheets wb))
          \<and> length (worksheets wb) = sum_list (map (\<lambda>d. length (worksheets d)) docs)"
    by blast
  from x(1) d have "map Some docs = map Some [\<lparr>worksheets = []\<rparr>]" by simp
  then have "docs = [\<lparr>worksheets = []\<rparr>]"
    by (simp only: inj_map_eq_map[OF inj_Some])
  with x(3) have "wb = new_workbook" by simp
  with run x(2) show ?thesis by blast
qed

theorem consolidate_failures_write_nothing_witness:
  "consolidate_excel_files ''/app/downloads'' [''/data/absent.xlsx''] ''out.xlsx'' None base_world
     = Some (base_world, Inl (FileNotFoundError ''File not found: /data/absent.xlsx''))
   \<and> (\<exists>w'. consolidate_excel_files ''/app/downloads'' [''/data/broken.xlsx''] ''out.xlsx'' None
               broken_world = Some (w', Inl (LoadError BadZipFile))
          \<and> w_files w' = w_files broken_world)"
proof
  have "list_all (os_path_exists base_world) [] \<and> \<not> os_path_exists base_world ''/data/absent.xlsx''"
    by (simp add: os_path_exists_def base_world_def)
  with consolidate_failures_write_nothing[of "''/app/downloads''" "''out.xlsx''" None base_world
      "[]" "''/data/absent.xlsx''" "[]"]
  show "consolidate_excel_files ''/app/downloads'' [''/data/absent.xlsx''] ''out.xlsx'' None base_world
     = Some (base_world, Inl (FileNotFoundError ''File not found: /data/absent.xlsx''))"
    by simp
next
  have "list_all (os_path_exists broken_world) ([] @ ''/data/broken.xlsx'' # [])
        \<and> list_all (\<lambda>q. saved_workbook broken_world q \<noteq> None) []
        \<and> w_files broken_world ''/data/broken.xlsx'' = Some old_file \<and> node_doc old_file = Inl BadZipFile"
    by (simp add: os_path_exists_def broken_world_def base_world_def old_file_def)
  with consolidate_failures_write_nothing[of "''/app/downloads''" "''out.xlsx''" None broken_world
      "[]" "''/data/broken.xlsx''" "[]" old_file BadZipFile]
  show "\<exists>w'. consolidate_excel_files ''/app/downloads'' [''/data/broken.xlsx''] ''out.xlsx'' None
               broken_world = Some (w', Inl (LoadError BadZipFile))
          \<and> w_files w' = w_files broken_world"
    by simp
qed

lemma rename_download_warns:
  assumes "os_path_exists w original" and "os_path_exists w (os_path_join dir new_filename)"
  shows "(LogWarning, ''File already exists, will overwrite'', os_path_join dir new_filename)
           \<in> set (w_log (fst (rename_download dir original new_filename w)))"
proof -
  let ?np = "os_path_join dir new_filename"
  let ?e = "(LogWarning, ''File already exists, will overwrite'', ?np)"
  let ?w1 = "logger LogWarning ''File already exists, will overwrite'' ?np w"
  have l1: "?e \<in> set (w_log ?w1)" by (simp add: logger_def)
  show ?thesis
  proof (cases "os_remove ?w1 ?np")
    case (Inl e)
    with assms l1 show ?thesis by (simp add: rename_download_def Let_def)
  next
    case (Inr w2)
    then have l2: "w_log w2 = w_log ?w1"
      by (auto simp: os_remove_def split: option.splits)
    show ?thesis
    proof (cases "shutil_move w2 original ?np")
      case (Inl e)
      with Inr assms l1 l2 show ?thesis by (simp add: rename_download_def Let_def)
    next
      case R: (Inr w3)
      then have "w_log w3 = w_log w2"
        by (auto simp: shutil_move_def split: option.splits sum.splits)
      with R Inr assms l1 l2 show ?thesis
        by (simp add: rename_download_def Let_def logger_def)
    qed
  qed
qed

lemma saved_workbook_upd_other:
  "q \<noteq> p \<Longrightarrow> saved_workbook (w\<lparr>w_files := (w_files w)(p := x)\<rparr>) q = saved_workbook w q"
  by (simp add: saved_workbook_def)

text \<open>
  Claim C10: when a file is already at the output path and the job returns, the path is
  \<open>download_dir/output_filename\<close>, the file there is the one just written, and no
  warning was logged. With the output path not among the sources, the job run on a world
  with any file at the output path ends with the same files as the job run on the world
  without it: nothing of the old file is left. \<open>rename_download\<close> in the same situation
  logs its warning.
\<close>

theorem consolidate_overwrites_silently:
  "(consolidate_excel_files dir paths outn sn w = Some (w', Inr p) \<and> w_files w p = Some old \<longrightarrow>
      p = os_path_join dir outn \<and> quiet_log w w'
      \<and> (\<exists>st wb. w_write w p = Inr st \<and> w_files w' p = Some (written_node st wb)))
   \<and> (os_path_join dir outn \<notin> set paths
        \<and> consolidate_excel_files dir paths outn sn
             (w\<lparr>w_files := (w_files w)(os_path_join dir outn \<mapsto> old)\<rparr>) = Some (w1, Inr p1) \<longrightarrow>
        (\<exists>w2. consolidate_excel_files dir paths outn sn
                 (w\<lparr>w_files := (w_files w)(os_path_join dir outn := None)\<rparr>) = Some (w2, Inr p1)
           \<and> w_files w2 = w_files w1))
   \<and> (os_path_exists w original \<and> os_path_exists w (os_path_join dir new_filename) \<longrightarrow>
        (LogWarning, ''File already exists, will overwrite'', os_path_join dir new_filename)
          \<in> set (w_log (fst (rename_download dir original new_filename w))))"
proof (intro conjI impI)
  assume a: "consolidate_excel_files dir paths outn sn w = Some (w', Inr p) \<and> w_files w p = Some old"
  from consolidate_success[of dir paths outn sn w w' p] a obtain new st where
    s: "p = os_path_join dir outn" "w_write w p = Inr st"
       "w_files w' = (w_files w)(p \<mapsto> written_node st (stored_workbook (w_reread w) (output_of new)))" "quiet_log w w'"
    by blast
  from s(3) have "w_files w' p = Some (written_node st (stored_workbook (w_reread w) (output_of new)))" by simp
  with s(2) have "\<exists>st wb. w_write w p = Inr st \<and> w_files w' p = Some (written_node st wb)" by blast
  with s(1,4) show "p = os_path_join dir outn" "quiet_log w w'"
    "\<exists>st wb. w_write w p = Inr st \<and> w_files w' p = Some (written_node st wb)"
    by simp_all
next
  let ?p = "os_path_join dir outn"
  let ?wA = "w\<lparr>w_files := (w_files w)(?p \<mapsto> old)\<rparr>"
  let ?wB = "w\<lparr>w_files := (w_files w)(?p := None)\<rparr>"
  assume a: "?p \<notin> set paths
        \<and> consolidate_excel_files dir paths outn sn ?wA = Some (w1, Inr p1)"
  from consolidate_success[of dir paths outn sn ?wA w1 p1] a obtain docs new st where
    s: "paths \<noteq> []" "map (saved_workbook ?wA) paths = map Some docs"
       "placed [''Sheet''] (all_jobs sn 0 paths docs) new"
       "p1 = ?p" "w_write ?wA p1 = Inr st"
       "w_files w1 = (w_files ?wA)(p1 \<mapsto> written_node st (stored_workbook (w_reread ?wA) (output_of new)))"
    by blast
  have same: "map (saved_workbook ?wB) paths = map (saved_workbook ?wA) paths"
  proof (rule map_cong[OF refl])
    fix q assume "q \<in> set paths"
    with a have "q \<noteq> ?p" by blast
    then show "saved_workbook ?wB q = saved_workbook ?wA q"
      by (simp add: saved_workbook_upd_other)
  qed
  have dB: "map (saved_workbook ?wB) paths = map Some docs" using same s(2) by simp
  have wrB: "w_write ?wB ?p = Inr st" using s(4,5) by simp
  from consolidate_succeeds[OF s(1) dB wrB, of sn] obtain w2 where
    r2: "consolidate_excel_files dir paths outn sn ?wB = Some (w2, Inr ?p)" by blast
  from consolidate_success[OF r2] obtain docs' new' st' where
    s': "map (saved_workbook ?wB) paths = map Some docs'"
       "placed [''Sheet''] (all_jobs sn 0 paths docs') new'"
       "w_write ?wB ?p = Inr st'"
       "w_files w2 = (w_files ?wB)(?p \<mapsto> written_node st' (stored_workbook (w_reread ?wB) (output_of new')))"
    by blast
  from s'(1) dB have "map Some docs' = map Some docs" by simp
  then have dd: "docs' = docs" by (simp only: inj_map_eq_map[OF inj_Some])
  from placed_deterministic[OF s'(2)[unfolded dd] s(3)] have nn: "new' = new" .
  from s'(3) wrB have ss: "st' = st" by simp
  have "w_files w2 = w_files w1"
    unfolding s'(4) s(6) s(4) nn ss by simp
  with r2 s(4) show "\<exists>w2. consolidate_excel_files dir paths outn sn ?wB = Some (w2, Inr p1)
           \<and> w_files w2 = w_files w1"
    by blast
next
  assume "os_path_exists w original \<and> os_path_exists w (os_path_join dir new_filename)"
  then show "(LogWarning, ''File already exists, will overwrite'', os_path_join dir new_filename)
          \<in> set (w_log (fst (rename_download dir original new_filename w)))"
    using rename_download_warns by blast
qed

section \<open>Copying a sheet\<close>























lemma report_docs:
  "saved_workbook report_world ''/data/report_a.xlsx'' = Some \<lparr>worksheets = [data_sheet]\<rparr>"
  "saved_workbook report_world ''/data/report_b.xlsx'' = Some \<lparr>worksheets = [data_sheet]\<rparr>"
  by (simp_all add: saved_workbook_def report_world_def report_node_def)

lemma report_write:
  "w_write report_world (os_path_join ''/app/downloads'' ''out.xlsx'')
   = Inr \<lparr>st_size = 5000, st_ctime = 8640000, st_mtime = 8640000\<rparr>"
  by (simp add: report_world_def base_world_def)

lemma out_path: "os_path_join ''/app/downloads'' ''out.xlsx'' = ''/app/downloads/out.xlsx''"
  by (simp add: os_path_join_def)




text \<open>
  A job whose output path already holds a file: it returns, logs no warning, and the
  file is the one written; the same job without the old file ends with the same files;
  and \<open>rename_download\<close> onto that path logs the warning.
\<close>

theorem consolidate_overwrites_silently_witness:
  "\<exists>w' st wb. consolidate_excel_files ''/app/downloads'' [''/data/report_a.xlsx''] ''out.xlsx'' None
             report_world = Some (w', Inr ''/app/downloads/out.xlsx'')
      \<and> w_files report_world ''/app/downloads/out.xlsx'' = Some old_file
      \<and> quiet_log report_world w'
      \<and> w_files w' ''/app/downloads/out.xlsx'' = Some (written_node st wb)
      \<and> (\<exists>w2. consolidate_excel_files ''/app/downloads'' [''/data/report_a.xlsx''] ''out.xlsx'' None
                  (report_world\<lparr>w_files := (w_files report_world)(''/app/downloads/out.xlsx'' := None)\<rparr>)
                = Some (w2, Inr ''/app/downloads/out.xlsx'')
             \<and> w_files w2 = w_files w')
      \<and> (LogWarning, ''File already exists, will overwrite'', ''/app/downloads/out.xlsx'')
           \<in> set (w_log (fst (rename_download ''/app/downloads'' ''/data/report_a.xlsx'' ''out.xlsx''
                                 report_world)))"
proof -
  let ?p = "''/app/downloads/out.xlsx''"
  let ?paths = "[''/data/report_a.xlsx'']"
  have "map (saved_workbook report_world) ?paths = map Some [\<lparr>worksheets = [data_sheet]\<rparr>]"
    by (simp add: report_docs)
  from consolidate_succeeds[OF _ this report_write, of None] obtain w' where
    run: "consolidate_excel_files ''/app/downloads'' ?paths ''out.xlsx'' None report_world
            = Some (w', Inr ?p)"
    unfolding out_path by blast
  have old: "w_files report_world ?p = Some old_file"
    by (simp add: report_world_def)
  have idem: "report_world\<lparr>w_files := (w_files report_world)(?p \<mapsto> old_file)\<rparr> = report_world"
    by (simp add: report_world_def)
  have notsrc: "os_path_join ''/app/downloads'' ''out.xlsx'' \<notin> set ?paths"
    by (simp add: out_path)
  have ex: "os_path_exists report_world ''/data/report_a.xlsx''
            \<and> os_path_exists report_world (os_path_join ''/app/downloads'' ''out.xlsx'')"
    by (simp add: out_path os_path_exists_def report_world_def)
  note inst = consolidate_overwrites_silently[where dir = "''/app/downloads''" and paths = ?paths
      and outn = "''out.xlsx''" and sn = None and w = report_world and w' = w' and p = ?p
      and old = old_file and ?w1.0 = w' and ?p1.0 = ?p and original = "''/data/report_a.xlsx''"
      and new_filename = "''out.xlsx''", unfolded out_path idem]
  from inst run old have a: "quiet_log report_world w'"
    and b: "\<exists>st wb. w_write report_world ?p = Inr st \<and> w_files w' ?p = Some (written_node st wb)"
    by blast+
  from inst run notsrc[unfolded out_path] have c:
    "\<exists>w2. consolidate_excel_files ''/app/downloads'' ?paths ''out.xlsx'' None
              (report_world\<lparr>w_files := (w_files report_world)(?p := None)\<rparr>) = Some (w2, Inr ?p)
        \<and> w_files w2 = w_files w'"
    by blast
  from inst ex[unfolded out_path] have d:
    "(LogWarning, ''File already exists, will overwrite'', ?p)
       \<in> set (w_log (fst (rename_download ''/app/downloads'' ''/data/report_a.xlsx'' ''out.xlsx''
                             report_world)))"
    by blast
  from b obtain st wb where b': "w_files w' ?p = Some (written_node st wb)" by blast
  show ?thesis
    using run old a b' c d
    by - (rule exI[of _ w'], rule exI[of _ st], rule exI[of _ wb], intro conjI, assumption+)
qed

lemma output_titles_placed:
  assumes "paths \<noteq> []" and "map (saved_workbook w) paths = map Some docs"
    and "w_write w (os_path_join dir outn) = Inr st"
  shows "\<exists>new. placed [''Sheet''] (all_jobs sn 0 paths docs) new
           \<and> output_titles (consolidate_excel_files dir paths outn sn w)
               = Some (map title (worksheets (output_of new)))"
proof -
  from consolidate_succeeds[OF assms, of sn] obtain w' where
    run: "consolidate_excel_files dir paths outn sn w = Some (w', Inr (os_path_join dir outn))"
    by blast
  from consolidate_success[OF run] obtain docs' new st' where
    d: "map (saved_workbook w) paths = map Some docs'"
    and pl: "placed [''Sheet''] (all_jobs sn 0 paths docs') new"
    and f: "w_files w' = (w_files w)(os_path_join dir outn
              \<mapsto> written_node st' (stored_workbook (w_reread w) (output_of new)))"
    by blast
  from d assms(2) have "map Some docs' = map Some docs" by simp
  then have dd: "docs' = docs" by (simp only: inj_map_eq_map[OF inj_Some])
  have "saved_workbook w' (os_path_join dir outn)
        = Some (stored_workbook (w_reread w) (output_of new))"
    using f by (simp add: saved_workbook_def written_node_def)
  then have "output_titles (consolidate_excel_files dir paths outn sn w)
             = Some (map title (worksheets (output_of new)))"
    unfolding run output_titles_def by (simp add: titles_stored_workbook)
  with pl dd show ?thesis by blast
qed

lemma placed_two:
  assumes "placed E [(c1, s1), (c2, s2)] new"
    and "unique_sheet_name E c1 = Some n1" and "assigned_title E n1 = t1"
    and "unique_sheet_name (E @ [t1]) c2 = Some n2" and "assigned_title (E @ [t1]) n2 = t2"
  shows "map title new = [t1, t2]"
proof -
  from assms(1) obtain a b where new: "new = [a, b]"
    by (cases new; cases "tl new"; cases "tl (tl new)") auto
  from assms(1,2,3) new have a: "title a = t1" by simp
  from assms(1) new a have "placed (E @ [t1]) [(c2, s2)] [b]" by simp
  with assms(4,5) have "title b = t2" by simp
  with a new show ?thesis by simp
qed

lemma report_pair_titles:
  assumes "sanitize_sheet_name c1 = c1" and "sanitize_sheet_name c2 = c2"
    and "unique_sheet_name [''Sheet''] c1 = Some c1" and "assigned_title [''Sheet''] c1 = t1"
    and "unique_sheet_name [''Sheet'', t1] c2 = Some c2" and "assigned_title [''Sheet'', t1] c2 = t2"
  shows "output_titles
           (consolidate_excel_files ''/app/downloads''
              [''/data/report_a.xlsx'', ''/data/report_b.xlsx''] ''out.xlsx'' (Some [c1, c2])
              report_world)
         = Some [t1, t2]"
proof -
  let ?paths = "[''/data/report_a.xlsx'', ''/data/report_b.xlsx'']"
  let ?docs = "[\<lparr>worksheets = [data_sheet]\<rparr>, \<lparr>worksheets = [data_sheet]\<rparr>]"
  have docs: "map (saved_workbook report_world) ?paths = map Some ?docs"
    by (simp add: report_docs)
  from output_titles_placed[OF _ docs report_write, of "Some [c1, c2]"] obtain new where
    pl: "placed [''Sheet''] (all_jobs (Some [c1, c2]) 0 ?paths ?docs) new"
    and o: "output_titles
              (consolidate_excel_files ''/app/downloads'' ?paths ''out.xlsx'' (Some [c1, c2])
                 report_world)
            = Some (map title (worksheets (output_of new)))"
    by auto
  have jobs: "all_jobs (Some [c1, c2]) 0 ?paths ?docs = [(c1, data_sheet), (c2, data_sheet)]"
    by (simp add: all_jobs_def file_jobs_def candidate_sheet_name_def upt_rec assms(1,2))
  from placed_two[OF pl[unfolded jobs] assms(3,4)] assms(5,6)
  have "map title new = [t1, t2]" by simp
  then have "map title (worksheets (output_of new)) = [t1, t2]"
    by (auto simp: output_of_def)
  with o show ?thesis by simp
qed

text \<open>
  Claim C2 at failing inputs: the two reports, one sheet each, under the custom names
  \<open>Summary\<close> and \<open>summary\<close>. \<open>_make_unique_sheet_name\<close> compares with regard to
  case and returns \<open>summary\<close> for the second sheet, and the library, which compares
  without regard to case, creates the sheet as \<open>summary1\<close>: the sheet is not under the
  name computed for it. With two names of 31 characters that differ in case only, the
  second title has 32 characters.
\<close>

theorem case_collision_breaks_naming:
  "unique_sheet_name [''Sheet'', ''Summary''] (sanitize_sheet_name ''summary'') = Some ''summary''
   \<and> output_titles
        (consolidate_excel_files ''/app/downloads''
           [''/data/report_a.xlsx'', ''/data/report_b.xlsx''] ''out.xlsx''
           (Some [''Summary'', ''summary'']) report_world)
       = Some [''Summary'', ''summary1'']
   \<and> output_titles
        (consolidate_excel_files ''/app/downloads''
           [''/data/report_a.xlsx'', ''/data/report_b.xlsx''] ''out.xlsx''
           (Some [''Activity_Statement_Summary_2025'', ''activity_statement_summary_2025''])
           report_world)
       = Some [''Activity_Statement_Summary_2025'', ''activity_statement_summary_20251'']
   \<and> length ''activity_statement_summary_20251'' = 32"
proof (intro conjI)
  have san1: "sanitize_sheet_name ''Summary'' = ''Summary''"
    and san2: "sanitize_sheet_name ''summary'' = ''summary''"
    by (simp_all add: sanitize_sheet_name_eq sheet_invalid_chars_def)
  have u1: "unique_sheet_name [''Sheet''] ''Summary'' = Some ''Summary''"
    and u2: "unique_sheet_name [''Sheet'', ''Summary''] ''summary'' = Some ''summary''"
    by (simp_all add: unique_sheet_name_def)
  have t1: "assigned_title [''Sheet''] ''Summary'' = ''Summary''"
    by code_simp
  have t2: "assigned_title [''Sheet'', ''Summary''] ''summary'' = ''summary1''"
    by code_simp
  show "unique_sheet_name [''Sheet'', ''Summary''] (sanitize_sheet_name ''summary'') = Some ''summary''"
    unfolding san2 by (rule u2)
  show "output_titles
        (consolidate_excel_files ''/app/downloads''
           [''/data/report_a.xlsx'', ''/data/report_b.xlsx''] ''out.xlsx''
           (Some [''Summary'', ''summary'']) report_world)
       = Some [''Summary'', ''summary1'']"
    by (rule report_pair_titles[OF san1 san2 u1 t1 u2 t2])
next
  let ?a = "''Activity_Statement_Summary_2025''"
  let ?b = "''activity_statement_summary_2025''"
  have san1: "sanitize_sheet_name ?a = ?a" and san2: "sanitize_sheet_name ?b = ?b"
    by (simp_all add: sanitize_sheet_name_eq sheet_invalid_chars_def)
  have u1: "unique_sheet_name [''Sheet''] ?a = Some ?a"
    and u2: "unique_sheet_name [''Sheet'', ?a] ?b = Some ?b"
    by (simp_all add: unique_sheet_name_def)
  have t1: "assigned_title [''Sheet''] ?a = ?a"
    by code_simp
  have t2: "assigned_title [''Sheet'', ?a] ?b = ''activity_statement_summary_20251''"
    by code_simp
  show "output_titles
        (consolidate_excel_files ''/app/downloads''
           [''/data/report_a.xlsx'', ''/data/report_b.xlsx''] ''out.xlsx''
           (Some [?a, ?b]) report_world)
       = Some [?a, ''activity_statement_summary_20251'']"
    by (rule report_pair_titles[OF san1 san2 u1 t1 u2 t2])
next
  show "length ''activity_statement_summary_20251'' = 32" by simp
qed

end
